theory Spec2Isabelle
  imports Complex_Main
begin

unbundle bit_operations_syntax

section \<open>Python values, exceptions and outcomes\<close>

text \<open>
  The repository's source file bundles two Python scripts, \<^verbatim>\<open>simulator.py\<close> (functions
  \<^verbatim>\<open>cpu_work_for\<close>, \<^verbatim>\<open>worker\<close>, \<^verbatim>\<open>generate_names\<close>, \<^verbatim>\<open>run_simulation\<close>) and
  \<^verbatim>\<open>monitor_streamlit.py\<close> (function \<^verbatim>\<open>is_pid_running\<close> and the two buttons). Line numbers
  are those of the source file.

  Conventions of the embedding:
  \<^item> Python \<^verbatim>\<open>int\<close> is \<open>int\<close>; Python \<^verbatim>\<open>float\<close> durations and clock readings are read as
    the real numbers they denote (\<open>real\<close>), with exact arithmetic;
  \<^item> Python \<^verbatim>\<open>str\<close> is \<open>string\<close>, a list of 8-bit characters;
  \<^item> everything the code reads from outside (the clock, the random generator, the
    process table, the file system) is an explicit environment argument;
  \<^item> an exception is a value: a computation yields an \<open>outcome\<close>.
\<close>

datatype exn =
    KeyError string
  | ValueError string
  | OSError string
  | TypeError string
  | KeyboardInterrupt

text \<open>\<^verbatim>\<open>except Exception\<close> catches every exception class below \<^verbatim>\<open>Exception\<close>;
  \<^verbatim>\<open>KeyboardInterrupt\<close> derives from \<^verbatim>\<open>BaseException\<close> only.\<close>

fun is_Exception :: "exn \<Rightarrow> bool" where
  "is_Exception KeyboardInterrupt = False"
| "is_Exception _ = True"

fun is_OSError :: "exn \<Rightarrow> bool" where
  "is_OSError (OSError _) = True"
| "is_OSError _ = False"

text \<open>\<^verbatim>\<open>str(e)\<close> of a caught exception: the message it carries.\<close>

fun str_exn :: "exn \<Rightarrow> string" where
  "str_exn (KeyError k) = k"
| "str_exn (ValueError m) = m"
| "str_exn (OSError m) = m"
| "str_exn (TypeError m) = m"
| "str_exn KeyboardInterrupt = []"

text \<open>
  \<open>Returns v\<close>: the call returned \<open>v\<close>. \<open>Raises e\<close>: it raised \<open>e\<close>. \<open>NoReturn\<close>: the
  finite supply of clock readings (or liveness polls) given to the model ran out while a
  loop of the code was still running, so the model knows of no return.
\<close>

datatype 'a outcome = Returns 'a | Raises exn | NoReturn

datatype pyval = PStr string | PInt int | PNone

text \<open>A Python \<^verbatim>\<open>dict\<close> with string keys, in insertion order; \<^verbatim>\<open>d[k] = v\<close> replaces the
  value of a present key and appends an absent one.\<close>

type_synonym pydict = "(string \<times> pyval) list"

fun dict_setitem :: "(string \<times> 'v) list \<Rightarrow> string \<Rightarrow> 'v \<Rightarrow> (string \<times> 'v) list" where
  "dict_setitem [] k v = [(k, v)]"
| "dict_setitem ((k', v') # d) k v =
     (if k' = k then (k, v) # d else (k', v') # dict_setitem d k v)"

text \<open>\<^verbatim>\<open>d.get(k)\<close>: \<^verbatim>\<open>None\<close> for a missing key.\<close>

definition dict_get :: "pydict \<Rightarrow> string \<Rightarrow> pyval" where
  "dict_get d k = (case map_of d k of None \<Rightarrow> PNone | Some v \<Rightarrow> v)"

section \<open>Decimal rendering of integers\<close>

definition digit_char :: "nat \<Rightarrow> char" where
  "digit_char d = ''0123456789'' ! d"

fun str_nat :: "nat \<Rightarrow> string" where
  "str_nat n =
     (if n < 10 then [digit_char n] else str_nat (n div 10) @ [digit_char (n mod 10)])"

declare str_nat.simps [simp del]

text \<open>\<^verbatim>\<open>str(i)\<close> and \<^verbatim>\<open>f"{i}"\<close> for a Python int.\<close>

definition str_int :: "int \<Rightarrow> string" where
  "str_int i = (if i < 0 then CHR ''-'' # str_nat (nat (- i)) else str_nat (nat i))"

text \<open>Reading a decimal numeral back; used only to show that \<open>str_nat\<close> is injective.\<close>

definition digit_val :: "char \<Rightarrow> nat" where
  "digit_val c = of_char c - 48"

definition parse_nat :: "string \<Rightarrow> nat" where
  "parse_nat s = foldl (\<lambda>acc c. 10 * acc + digit_val c) 0 s"

section \<open>The random generator and \<^verbatim>\<open>generate_names\<close>\<close>

text \<open>
  The generator is a stream of raw draws \<open>rnd :: nat \<Rightarrow> nat\<close>, the \<open>k\<close>-th call consuming
  \<open>rnd k\<close>. \<^verbatim>\<open>random.choice(seq)\<close> picks an index below \<^verbatim>\<open>len(seq)\<close>;
  \<^verbatim>\<open>random.randint(a, b)\<close> an integer of the closed interval from \<open>a\<close> to \<open>b\<close>.
\<close>

definition random_choice :: "'a list \<Rightarrow> nat \<Rightarrow> 'a" where
  "random_choice xs raw = xs ! (raw mod length xs)"

definition randint :: "int \<Rightarrow> int \<Rightarrow> nat \<Rightarrow> int" where
  "randint a b raw = a + int (raw mod nat (b - a + 1))"

text \<open>\<^verbatim>\<open>range(n)\<close>: empty when \<open>n \<le> 0\<close>.\<close>

definition py_range :: "int \<Rightarrow> int list" where
  "py_range n = map int [0..<nat n]"

definition first_names :: "string list" where
  "first_names = [''Aarav'', ''Vivaan'', ''Aditya'', ''Arjun'', ''Reyansh'', ''Krishna'',
                  ''Kabir'', ''Ishaan'', ''Vihaan'', ''Rohan'']"

definition last_names :: "string list" where
  "last_names = [''Sharma'', ''Verma'', ''Khan'', ''Patel'', ''Singh'', ''Gupta'', ''Reddy'',
                 ''Nair'', ''Mehta'', ''Joshi'']"

text \<open>
  The loop body \<^verbatim>\<open>f"{random.choice(first)} {random.choice(last)} #{i+1}"\<close>: iteration \<open>i\<close>
  makes the draws number \<open>2i\<close> and \<open>2i + 1\<close>.
\<close>

definition make_name :: "(nat \<Rightarrow> nat) \<Rightarrow> int \<Rightarrow> string" where
  "make_name rnd i =
     random_choice first_names (rnd (2 * nat i)) @ '' '' @
     random_choice last_names (rnd (2 * nat i + 1)) @ '' #'' @ str_int (i + 1)"

definition generate_names :: "(nat \<Rightarrow> nat) \<Rightarrow> int \<Rightarrow> string list" where
  "generate_names rnd count = map (make_name rnd) (py_range count)"

section \<open>\<^verbatim>\<open>cpu_work_for\<close>\<close>

text \<open>
  \<^verbatim>\<open>math.isqrt(n)\<close> is the floor of the square root of a non-negative integer and raises
  \<^verbatim>\<open>ValueError\<close> on a negative one. \<open>isqrt\<close> computes it digit by digit in base 4;
  lemma \<open>isqrt_correct\<close> below shows that it is the floor of the square root.
\<close>

fun isqrt :: "nat \<Rightarrow> nat" where
  "isqrt n =
     (if n < 4 then (if n = 0 then 0 else 1)
      else (let r = 2 * isqrt (n div 4) in if (r + 1) * (r + 1) \<le> n then r + 1 else r))"

declare isqrt.simps [simp del]

definition math_isqrt :: "int \<Rightarrow> int outcome" where
  "math_isqrt n =
     (if n < 0 then Raises (ValueError ''isqrt() argument must be nonnegative'')
      else Returns (int (isqrt (nat n))))"

text \<open>\<^verbatim>\<open>range(start, stop, step)\<close> for a positive step (the code uses step 2 only).\<close>

definition py_range3 :: "int \<Rightarrow> int \<Rightarrow> int \<Rightarrow> int list" where
  "py_range3 start stop step =
     map (\<lambda>k. start + int k * step) [0..<nat ((stop - start + step - 1) div step)]"

text \<open>
  The inner loop
  \<^verbatim>\<open>is_prime = True; for i in range(3, r+1, 2): if n % i == 0: is_prime = False; break\<close>
  run over the list of divisors; the result is the final value of \<^verbatim>\<open>is_prime\<close>.
\<close>

fun trial_division :: "int \<Rightarrow> int list \<Rightarrow> bool" where
  "trial_division n [] = True"
| "trial_division n (i # is) = (if n mod i = 0 then False else trial_division n is)"

text \<open>
  The outer loop \<^verbatim>\<open>while time.time() < end\<close>. Every evaluation of the loop condition
  consumes one reading of the clock, every iteration one draw of the generator. The
  loop is bounded by the wall clock only: when the readings given run out before one
  reaches \<open>end\<close>, the model answers \<open>NoReturn\<close>. Beside \<^verbatim>\<open>count\<close>, the model keeps
  the values that \<^verbatim>\<open>n\<close> and \<^verbatim>\<open>is_prime\<close> took in each iteration (\<open>tested\<close>), so that
  statements about the candidates can be made; the code returns \<^verbatim>\<open>count\<close> alone.
\<close>

fun cpu_loop ::
  "real \<Rightarrow> real list \<Rightarrow> (nat \<Rightarrow> nat) \<Rightarrow> int \<Rightarrow> (int \<times> bool) list
     \<Rightarrow> (int \<times> (int \<times> bool) list) outcome" where
  "cpu_loop end [] rnd count tested = NoReturn"
| "cpu_loop end (t # ts) rnd count tested =
     (if t < end then
        (let n = randint (10 ^ 5) (10 ^ 6) (rnd 0) OR 1 in
         case math_isqrt n of
           Raises e \<Rightarrow> Raises e
         | NoReturn \<Rightarrow> NoReturn
         | Returns r \<Rightarrow>
             (let is_prime = trial_division n (py_range3 3 (r + 1) 2)
              in cpu_loop end ts (\<lambda>k. rnd (Suc k)) (count + 1) (tested @ [(n, is_prime)])))
      else Returns (count, tested))"

text \<open>
  \<^verbatim>\<open>end = time.time() + seconds; count = 0\<close>, then the loop. \<open>clock\<close> lists the
  successive readings of \<^verbatim>\<open>time.time()\<close>.
\<close>

definition cpu_work_run ::
  "real \<Rightarrow> real list \<Rightarrow> (nat \<Rightarrow> nat) \<Rightarrow> (int \<times> (int \<times> bool) list) outcome" where
  "cpu_work_run seconds clock rnd =
     (case clock of
        [] \<Rightarrow> NoReturn
      | t0 # ts \<Rightarrow> cpu_loop (t0 + seconds) ts rnd 0 [])"

definition cpu_work_for :: "real \<Rightarrow> real list \<Rightarrow> (nat \<Rightarrow> nat) \<Rightarrow> int outcome" where
  "cpu_work_for seconds clock rnd =
     (case cpu_work_run seconds clock rnd of
        Returns (count, tested) \<Rightarrow> Returns count
      | Raises e \<Rightarrow> Raises e
      | NoReturn \<Rightarrow> NoReturn)"

text \<open>
  Primality as the specification means it, to compare with what the trial division
  computes: an integer above 1 whose only positive divisors are 1 and itself.
\<close>

definition is_prime_int :: "int \<Rightarrow> bool" where
  "is_prime_int n \<longleftrightarrow> 1 < n \<and> (\<forall>d. 0 < d \<and> d dvd n \<longrightarrow> d = 1 \<or> d = n)"

section \<open>The status table: objects, references and the manager proxy\<close>

text \<open>
  \<^verbatim>\<open>worker\<close> receives \<^verbatim>\<open>status_dict\<close> and uses it through indexing only:
  \<^verbatim>\<open>status_dict[name] = {...}\<close>, \<^verbatim>\<open>status_dict[name]["state"] = ...\<close> and
  \<^verbatim>\<open>status_dict[name].get("left_at")\<close>. The second form is two operations: the lookup
  \<^verbatim>\<open>status_dict[name]\<close> yields an object, and the item assignment mutates that object.
  Whether the mutation reaches the table depends on what the lookup hands out, so
  the model has an explicit store: dict objects live in a heap at addresses, and the
  table maps participant names to addresses.

  \<^item> For an ordinary \<^verbatim>\<open>dict\<close> (\<open>PlainDict\<close>) assignment stores the reference and lookup
    returns the stored reference.
  \<^item> \<^verbatim>\<open>run_simulation\<close> passes \<^verbatim>\<open>Manager().dict()\<close> (\<open>ManagerProxy\<close>): the table lives in
    the manager process and every operation is a message carrying pickled values.
    Assignment stores a copy of the value in the manager; lookup returns a fresh copy of
    the stored value to the calling process. The \<^verbatim>\<open>multiprocessing\<close> documentation notes
    that modifications to a standard dict or list contained in a referent are not
    propagated through the manager; only an assignment to the proxy itself is.
\<close>

record store =
  heap :: "nat \<Rightarrow> pydict option"
  table :: "(string \<times> nat) list"
  next_addr :: nat

datatype dict_kind = PlainDict | ManagerProxy

definition new_dict :: "pydict \<Rightarrow> store \<Rightarrow> nat \<times> store" where
  "new_dict d m =
     (next_addr m, m\<lparr>heap := (heap m)(next_addr m \<mapsto> d), next_addr := Suc (next_addr m)\<rparr>)"

definition deref :: "store \<Rightarrow> nat \<Rightarrow> pydict" where
  "deref m a = (case heap m a of None \<Rightarrow> [] | Some d \<Rightarrow> d)"

text \<open>\<^verbatim>\<open>status_dict[name] = obj\<close>, with \<open>a\<close> the address of \<^verbatim>\<open>obj\<close>.\<close>

definition status_setitem :: "dict_kind \<Rightarrow> string \<Rightarrow> nat \<Rightarrow> store \<Rightarrow> store" where
  "status_setitem kind name a m =
     (case kind of
        PlainDict \<Rightarrow> m\<lparr>table := dict_setitem (table m) name a\<rparr>
      | ManagerProxy \<Rightarrow>
          (case new_dict (deref m a) m of
             (a', m') \<Rightarrow> m'\<lparr>table := dict_setitem (table m') name a'\<rparr>))"

text \<open>\<^verbatim>\<open>status_dict[name]\<close>: the address of the object handed to the caller.\<close>

definition status_getitem :: "dict_kind \<Rightarrow> string \<Rightarrow> store \<Rightarrow> (nat \<times> store) outcome" where
  "status_getitem kind name m =
     (case map_of (table m) name of
        None \<Rightarrow> Raises (KeyError name)
      | Some a \<Rightarrow>
          (case kind of
             PlainDict \<Rightarrow> Returns (a, m)
           | ManagerProxy \<Rightarrow> Returns (new_dict (deref m a) m)))"

text \<open>\<^verbatim>\<open>obj[key] = v\<close> on the dict object at address \<open>a\<close>.\<close>

definition obj_setitem :: "nat \<Rightarrow> string \<Rightarrow> pyval \<Rightarrow> store \<Rightarrow> store" where
  "obj_setitem a key v m = m\<lparr>heap := (heap m)(a \<mapsto> dict_setitem (deref m a) key v)\<rparr>"

text \<open>What a reader of the table (the supervisor's \<^verbatim>\<open>status.items()\<close>) finds under a name.\<close>

definition table_entry :: "store \<Rightarrow> string \<Rightarrow> pydict option" where
  "table_entry m name = map_option (deref m) (map_of (table m) name)"

section \<open>JSON rendering (\<^verbatim>\<open>json.dumps\<close> with its defaults)\<close>

definition hex_digit :: "nat \<Rightarrow> char" where
  "hex_digit d = ''0123456789abcdef'' ! d"

text \<open>
  With \<^verbatim>\<open>ensure_ascii=True\<close> every character outside the printable ASCII range, the
  double quote and the backslash are escaped.
\<close>

definition json_escape :: "char \<Rightarrow> string" where
  "json_escape c =
     (if c = CHR 0x22 then [CHR 0x5C, CHR 0x22]
      else if c = CHR 0x5C then [CHR 0x5C, CHR 0x5C]
      else if c = CHR 0x0A then [CHR 0x5C, CHR ''n'']
      else if c = CHR 0x0D then [CHR 0x5C, CHR ''r'']
      else if c = CHR 0x09 then [CHR 0x5C, CHR ''t'']
      else if c = CHR 0x08 then [CHR 0x5C, CHR ''b'']
      else if c = CHR 0x0C then [CHR 0x5C, CHR ''f'']
      else if (of_char c :: nat) < 32 \<or> 126 < (of_char c :: nat) then
        [CHR 0x5C, CHR ''u'', CHR ''0'', CHR ''0'',
         hex_digit (of_char c div 16), hex_digit (of_char c mod 16)]
      else [c])"

definition json_string :: "string \<Rightarrow> string" where
  "json_string s = [CHR 0x22] @ concat (map json_escape s) @ [CHR 0x22]"

fun json_value :: "pyval \<Rightarrow> string" where
  "json_value (PStr s) = json_string s"
| "json_value (PInt i) = str_int i"
| "json_value PNone = ''null''"

text \<open>\<^verbatim>\<open>sep.join(parts)\<close>.\<close>

fun str_join :: "string \<Rightarrow> string list \<Rightarrow> string" where
  "str_join sep [] = []"
| "str_join sep [x] = x"
| "str_join sep (x # y # ys) = x @ sep @ str_join sep (y # ys)"

definition json_dumps :: "pydict \<Rightarrow> string" where
  "json_dumps d =
     ''{'' @ str_join '', '' (map (\<lambda>(k, v). json_string k @ '': '' @ json_value v) d) @ ''}''"

section \<open>\<^verbatim>\<open>worker\<close>\<close>

text \<open>
  What a worker reads from outside: its process id, the text of
  \<^verbatim>\<open>datetime.utcnow().isoformat()\<close> at its \<open>k\<close>-th call, the readings of \<^verbatim>\<open>time.time()\<close>
  and the random draws consumed by \<^verbatim>\<open>cpu_work_for\<close>, and whether \<^verbatim>\<open>open(log_path, "a")\<close>
  or \<^verbatim>\<open>f.write\<close> fails (with the message of the \<^verbatim>\<open>OSError\<close>).
\<close>

record env =
  env_pid :: int
  env_utcnow :: "nat \<Rightarrow> string"
  env_clock :: "real list"
  env_random :: "nat \<Rightarrow> nat"
  env_open_error :: "string option"
  env_write_error :: "string option"

text \<open>What a worker does to the outside, beside the status table.\<close>

datatype effect = Sleep real | Print string | FileAppend string string

text \<open>
  The state of a running worker: the store holding the status table, the number of
  \<^verbatim>\<open>utcnow\<close> calls made, the effects so far, and the local variables \<^verbatim>\<open>pid\<close>,
  \<^verbatim>\<open>started_at\<close>, \<^verbatim>\<open>jobs_done\<close> and \<^verbatim>\<open>remaining\<close>.
\<close>

record wstate =
  mem :: store
  utc_calls :: nat
  effects :: "effect list"
  v_pid :: int
  v_started_at :: string
  v_jobs_done :: int
  v_remaining :: real

definition init_wstate :: "store \<Rightarrow> wstate" where
  "init_wstate m =
     \<lparr>mem = m, utc_calls = 0, effects = [], v_pid = 0, v_started_at = [],
      v_jobs_done = 0, v_remaining = 0\<rparr>"

text \<open>\<^verbatim>\<open>datetime.utcnow().isoformat() + "Z"\<close>.\<close>

definition utcnow_z :: "env \<Rightarrow> wstate \<Rightarrow> string \<times> wstate" where
  "utcnow_z env s = (env_utcnow env (utc_calls s) @ ''Z'', s\<lparr>utc_calls := Suc (utc_calls s)\<rparr>)"

text \<open>\<^verbatim>\<open>time.sleep(secs)\<close> raises \<^verbatim>\<open>ValueError\<close> on a negative length.\<close>

definition time_sleep :: "real \<Rightarrow> wstate \<Rightarrow> wstate outcome" where
  "time_sleep secs s =
     (if secs < 0 then Raises (ValueError ''sleep length must be non-negative'')
      else Returns (s\<lparr>effects := effects s @ [Sleep secs]\<rparr>))"

text \<open>\<^verbatim>\<open>status_dict[name][key] = v\<close>, the value \<open>v\<close> already evaluated: look the entry
  up, then assign to the object the lookup returned.\<close>

definition entry_assign ::
  "dict_kind \<Rightarrow> string \<Rightarrow> string \<Rightarrow> pyval \<Rightarrow> wstate \<Rightarrow> wstate outcome" where
  "entry_assign kind name key v s =
     (case status_getitem kind name (mem s) of
        Raises e \<Rightarrow> Raises e
      | NoReturn \<Rightarrow> NoReturn
      | Returns (a, m) \<Rightarrow> Returns (s\<lparr>mem := obj_setitem a key v m\<rparr>))"

text \<open>\<^verbatim>\<open>status_dict[name][key] = datetime.utcnow().isoformat() + "Z"\<close>: Python evaluates the
  right-hand side first.\<close>

definition entry_assign_now ::
  "dict_kind \<Rightarrow> env \<Rightarrow> string \<Rightarrow> string \<Rightarrow> wstate \<Rightarrow> wstate outcome" where
  "entry_assign_now kind env name key s =
     (case utcnow_z env s of (t, s') \<Rightarrow> entry_assign kind name key (PStr t) s')"

text \<open>\<^verbatim>\<open>with open(log_path, "a") as f: f.write(text)\<close>.\<close>

definition append_text :: "env \<Rightarrow> string \<Rightarrow> string \<Rightarrow> wstate \<Rightarrow> wstate outcome" where
  "append_text env path text s =
     (case env_open_error env of
        Some msg \<Rightarrow> Raises (OSError msg)
      | None \<Rightarrow>
          (case env_write_error env of
             Some msg \<Rightarrow> Raises (OSError msg)
           | None \<Rightarrow> Returns (s\<lparr>effects := effects s @ [FileAppend path text]\<rparr>)))"

text \<open>The dict literal \<^verbatim>\<open>record = {...}\<close> of lines 73 to 79; \<^verbatim>\<open>left_at\<close> is read from a
  fresh lookup of the worker's entry.\<close>

definition log_record :: "string \<Rightarrow> string \<Rightarrow> pydict \<Rightarrow> wstate \<Rightarrow> pydict" where
  "log_record name meeting_code entry s =
     [(''name'', PStr name),
      (''meeting_code'', PStr meeting_code),
      (''started_at'', PStr (v_started_at s)),
      (''left_at'', dict_get entry ''left_at''),
      (''work_done'', PInt (v_jobs_done s))]"

text \<open>
  Lines 72 to 84: \<^verbatim>\<open>if log_path:\<close> is false for \<^verbatim>\<open>None\<close> and for the empty string. The
  record is built outside the \<^verbatim>\<open>try\<close>; the \<^verbatim>\<open>except Exception\<close> clause prints and goes on.
\<close>

definition write_log ::
  "dict_kind \<Rightarrow> env \<Rightarrow> string \<Rightarrow> string \<Rightarrow> string option \<Rightarrow> wstate \<Rightarrow> wstate outcome" where
  "write_log kind env name meeting_code log_path s =
     (case log_path of
        None \<Rightarrow> Returns s
      | Some path \<Rightarrow>
          if path = [] then Returns s
          else
            (case status_getitem kind name (mem s) of
               Raises e \<Rightarrow> Raises e
             | NoReturn \<Rightarrow> NoReturn
             | Returns (a, m) \<Rightarrow>
                 (let s1 = s\<lparr>mem := m\<rparr>;
                      record = log_record name meeting_code (deref m a) s1
                  in case append_text env path (json_dumps record @ [CHR 0x0A]) s1 of
                       Returns s2 \<Rightarrow> Returns s2
                     | NoReturn \<Rightarrow> NoReturn
                     | Raises e \<Rightarrow>
                         if is_Exception e
                         then Returns (s1\<lparr>effects := effects s1 @
                                 [Print (''Could not write log: '' @ str_exn e)]\<rparr>)
                         else Raises e)))"

text \<open>The lifecycle of \<^verbatim>\<open>worker\<close>, statement by statement (lines 45 to 69).\<close>

definition worker_lifecycle ::
  "env \<Rightarrow> string \<Rightarrow> int \<Rightarrow> real \<Rightarrow> dict_kind \<Rightarrow> real \<Rightarrow> (wstate \<Rightarrow> wstate outcome) list" where
  "worker_lifecycle env name stay_seconds work_seconds kind stagger =
     [\<lambda>s. Returns (s\<lparr>v_pid := env_pid env\<rparr>),
      \<lambda>s. (case utcnow_z env s of (t, s') \<Rightarrow> Returns (s'\<lparr>v_started_at := t\<rparr>)),
      \<lambda>s. (case new_dict [(''state'', PStr ''connecting''), (''pid'', PInt (v_pid s)),
                            (''started_at'', PStr (v_started_at s))] (mem s) of
              (a, m) \<Rightarrow> Returns (s\<lparr>mem := status_setitem kind name a m\<rparr>)),
      \<lambda>s. if stagger > 0 then time_sleep stagger s else Returns s,
      entry_assign kind name ''state'' (PStr ''connected''),
      entry_assign_now kind env name ''connected_at'',
      entry_assign kind name ''state'' (PStr ''working''),
      entry_assign_now kind env name ''work_started_at'',
      \<lambda>s. (case cpu_work_for work_seconds (env_clock env) (env_random env) of
              Returns jobs \<Rightarrow> Returns (s\<lparr>v_jobs_done := jobs\<rparr>)
            | Raises e \<Rightarrow> Raises e
            | NoReturn \<Rightarrow> NoReturn),
      \<lambda>s. entry_assign kind name ''work_done'' (PInt (v_jobs_done s)) s,
      entry_assign_now kind env name ''work_finished_at'',
      \<lambda>s. Returns (s\<lparr>v_remaining := max 0 (real_of_int stay_seconds - work_seconds)\<rparr>),
      entry_assign kind name ''state'' (PStr ''idle''),
      \<lambda>s. time_sleep (v_remaining s) s,
      entry_assign kind name ''state'' (PStr ''left''),
      entry_assign_now kind env name ''left_at'']"

text \<open>The whole body: the lifecycle, then the log record (lines 71 to 84).
  \<^verbatim>\<open>passcode\<close> is a parameter that the body never uses.\<close>

definition worker_body ::
  "env \<Rightarrow> string \<Rightarrow> string \<Rightarrow> string \<Rightarrow> int \<Rightarrow> real \<Rightarrow> dict_kind \<Rightarrow> string option \<Rightarrow> real
     \<Rightarrow> (wstate \<Rightarrow> wstate outcome) list" where
  "worker_body env name meeting_code passcode stay_seconds work_seconds kind log_path stagger =
     worker_lifecycle env name stay_seconds work_seconds kind stagger @
     [write_log kind env name meeting_code log_path]"

text \<open>
  Running a list of statements: the states reached after each completed statement, in
  order, and how the run ended. A statement that raises ends the run.
\<close>

fun exec :: "(wstate \<Rightarrow> wstate outcome) list \<Rightarrow> wstate \<Rightarrow> wstate list \<times> unit outcome" where
  "exec [] s = ([], Returns ())"
| "exec (c # cs) s =
     (case c s of
        Raises e \<Rightarrow> ([], Raises e)
      | NoReturn \<Rightarrow> ([], NoReturn)
      | Returns s' \<Rightarrow> (case exec cs s' of (tr, r) \<Rightarrow> (s' # tr, r)))"

text \<open>
  \<^verbatim>\<open>worker(name, meeting_code, passcode, stay_seconds, work_seconds, status_dict,
  log_path, stagger)\<close>; \<^verbatim>\<open>status_dict\<close> is given by its kind and the store \<open>m\<close> holding it.
\<close>

definition worker ::
  "env \<Rightarrow> string \<Rightarrow> string \<Rightarrow> string \<Rightarrow> int \<Rightarrow> real \<Rightarrow> dict_kind \<Rightarrow> store \<Rightarrow> string option
     \<Rightarrow> real \<Rightarrow> wstate list \<times> unit outcome" where
  "worker env name meeting_code passcode stay_seconds work_seconds kind m log_path stagger =
     exec (worker_body env name meeting_code passcode stay_seconds work_seconds kind log_path
             stagger) (init_wstate m)"

text \<open>
  The values of \<^verbatim>\<open>"state"\<close> that the table held for a participant over a run, in order:
  the state visible in the table after each statement, successive repetitions of one
  value counted once.
\<close>

definition shared_state :: "string \<Rightarrow> wstate \<Rightarrow> pyval option" where
  "shared_state name s =
     (case table_entry (mem s) name of None \<Rightarrow> None | Some d \<Rightarrow> map_of d ''state'')"

definition recorded_states :: "string \<Rightarrow> wstate list \<Rightarrow> pyval list" where
  "recorded_states name trace = remdups_adj (List.map_filter (shared_state name) trace)"

definition empty_store :: store where
  "empty_store = \<lparr>heap = Map.empty, table = [], next_addr = 0\<rparr>"




text \<open>
  An environment for the examples: process 4242, timestamps counting seconds, a clock
  that reads 0 and then 20, a generator of zeros, and a writable log file.
\<close>

definition example_env :: env where
  "example_env =
     \<lparr>env_pid = 4242,
      env_utcnow = (\<lambda>k. ''2024-01-01T00:00:0'' @ str_int (int k)),
      env_clock = [0, 20],
      env_random = (\<lambda>k. 0),
      env_open_error = None,
      env_write_error = None\<rparr>"

section \<open>\<^verbatim>\<open>run_simulation\<close>\<close>

text \<open>The argument tuple of \<^verbatim>\<open>Process(target=worker, args=(...))\<close>, without the status
  table, which is the manager proxy for every worker.\<close>

record proc_args =
  arg_name :: string
  arg_meeting_code :: string
  arg_passcode :: string
  arg_stay_seconds :: int
  arg_work_seconds :: real
  arg_log_path :: "string option"
  arg_stagger :: real


text \<open>
  What the supervisor does, in order. The five \<^verbatim>\<open>print\<close> statements of \<^verbatim>\<open>run_simulation\<close>
  are kept apart (lines 102, 111, 115, 118 and 124). \<open>Start i args\<close> is the creation and
  start of \<^verbatim>\<open>processes[i]\<close>, \<open>Terminate i\<close> its \<^verbatim>\<open>terminate()\<close>, and \<open>Join i\<close> the return of
  its \<^verbatim>\<open>join()\<close>, which happens only once the process has exited.
\<close>

datatype sup_event =
    PrintStart string
  | Start nat proc_args
  | PrintAlive string
  | PrintSample string
  | SupSleep real
  | PrintInterrupt string
  | Terminate nat
  | Join nat
  | PrintComplete string

text \<open>
  One evaluation of the loop condition and, if it holds, one iteration of the monitoring
  loop, as the outside world answers it: what \<^verbatim>\<open>is_alive()\<close> says for each process in the
  \<^verbatim>\<open>any(...)\<close> sweep and in the \<^verbatim>\<open>sum(...)\<close> sweep, the items of the status table, and
  whether the interrupt arrives during \<^verbatim>\<open>time.sleep(5)\<close>, where the supervisor spends its
  time.
\<close>

record poll =
  alive_any :: "nat \<Rightarrow> bool"
  alive_sum :: "nat \<Rightarrow> bool"
  status_items :: "(string \<times> pydict) list"
  interrupted :: bool

record sim_env =
  sim_random :: "nat \<Rightarrow> nat"
  sim_utcnow :: "nat \<Rightarrow> string"
  sim_polls :: "poll list"
  sim_join_returns :: "nat \<Rightarrow> bool"

text \<open>\<^verbatim>\<open>f"{v}"\<close> for a value of the status table.\<close>

fun str_pyval :: "pyval \<Rightarrow> string" where
  "str_pyval (PStr s) = s"
| "str_pyval (PInt i) = str_int i"
| "str_pyval PNone = ''None''"

text \<open>\<^verbatim>\<open>for k, v in sample: print(f"  {k}: {v['state']}")\<close>; a missing key raises.\<close>

fun print_sample :: "(string \<times> pydict) list \<Rightarrow> sup_event list \<times> unit outcome" where
  "print_sample [] = ([], Returns ())"
| "print_sample ((k, v) # rest) =
     (case map_of v ''state'' of
        None \<Rightarrow> ([], Raises (KeyError ''state''))
      | Some st \<Rightarrow>
          (case print_sample rest of
             (evs, r) \<Rightarrow> (PrintSample (''  '' @ k @ '': '' @ str_pyval st) # evs, r)))"

text \<open>
  The loop of lines 109 to 116 over \<open>n\<close> processes. \<open>k\<close> counts the calls of \<^verbatim>\<open>utcnow\<close>.
  When the polls given run out while some process is still alive the model answers
  \<open>NoReturn\<close>.
\<close>

fun monitor ::
  "nat \<Rightarrow> (nat \<Rightarrow> string) \<Rightarrow> nat \<Rightarrow> poll list \<Rightarrow> sup_event list \<times> nat \<times> unit outcome" where
  "monitor n now k [] = ([], k, NoReturn)"
| "monitor n now k (p # ps) =
     (if list_ex (alive_any p) [0..<n] then
        (let alive = length (filter (alive_sum p) [0..<n]);
             line = PrintAlive (''['' @ now k @ ''Z] Alive workers: '' @ str_int (int alive))
         in case print_sample (take 5 (status_items p)) of
              (evs, Raises e) \<Rightarrow> (line # evs, Suc k, Raises e)
            | (evs, NoReturn) \<Rightarrow> (line # evs, Suc k, NoReturn)
            | (evs, Returns u) \<Rightarrow>
                if interrupted p then (line # evs, Suc k, Raises KeyboardInterrupt)
                else (case monitor n now (Suc k) ps of
                        (evs', k', r) \<Rightarrow> (line # evs @ SupSleep 5 # evs', k', r)))
      else ([], k, Returns ()))"

text \<open>\<^verbatim>\<open>for p in processes: p.join()\<close>: a join that does not return blocks the loop.\<close>

fun join_all :: "(nat \<Rightarrow> bool) \<Rightarrow> nat list \<Rightarrow> sup_event list \<times> unit outcome" where
  "join_all returns [] = ([], Returns ())"
| "join_all returns (i # is) =
     (if returns i then (case join_all returns is of (evs, r) \<Rightarrow> (Join i # evs, r))
      else ([], NoReturn))"

text \<open>\<^verbatim>\<open>logfile or 'stdout'\<close>.\<close>

definition logfile_or_stdout :: "string option \<Rightarrow> string" where
  "logfile_or_stdout logfile =
     (case logfile of None \<Rightarrow> ''stdout'' | Some p \<Rightarrow> if p = [] then ''stdout'' else p)"

text \<open>
  \<^verbatim>\<open>run_simulation\<close>, lines 98 to 124: the names, the banner, the start of every worker,
  then \<^verbatim>\<open>try\<close> the monitoring loop, \<^verbatim>\<open>except KeyboardInterrupt\<close> terminate every process,
  \<^verbatim>\<open>finally\<close> join every process, and after the \<^verbatim>\<open>try\<close> statement the completion line. An
  exception other than \<^verbatim>\<open>KeyboardInterrupt\<close> leaves through the \<^verbatim>\<open>finally\<close> clause.
\<close>

definition run_simulation ::
  "sim_env \<Rightarrow> int \<Rightarrow> string \<Rightarrow> string \<Rightarrow> int \<Rightarrow> real \<Rightarrow> real \<Rightarrow> string option
     \<Rightarrow> sup_event list \<times> unit outcome" where
  "run_simulation env number_of_users meeting_code passcode stay_seconds work_seconds stagger
     logfile =
     (let names = generate_names (sim_random env) number_of_users;
          n = length names;
          banner = PrintStart (''['' @ sim_utcnow env 0 @ ''Z] Starting simulation: '' @
                     str_int number_of_users @ '' participants'');
          starts = map (\<lambda>(i, name).
                     Start i \<lparr>arg_name = name, arg_meeting_code = meeting_code,
                              arg_passcode = passcode, arg_stay_seconds = stay_seconds,
                              arg_work_seconds = work_seconds, arg_log_path = logfile,
                              arg_stagger = real i * stagger\<rparr>)
                   (enumerate 0 names);
          complete = (\<lambda>k. PrintComplete (''['' @ sim_utcnow env k @
                       ''Z] Simulation complete. Logs -> '' @ logfile_or_stdout logfile))
      in case monitor n (sim_utcnow env) 1 (sim_polls env) of
           (evs, k, NoReturn) \<Rightarrow> (banner # starts @ evs, NoReturn)
         | (evs, k, Returns u) \<Rightarrow>
             (case join_all (sim_join_returns env) [0..<n] of
                (joins, Returns u') \<Rightarrow> (banner # starts @ evs @ joins @ [complete k], Returns ())
              | (joins, r) \<Rightarrow> (banner # starts @ evs @ joins, r))
         | (evs, k, Raises e) \<Rightarrow>
             (let handler =
                    (if e = KeyboardInterrupt
                     then PrintInterrupt ''KeyboardInterrupt received: terminating children'' #
                          map Terminate [0..<n]
                     else [])
              in case join_all (sim_join_returns env) [0..<n] of
                   (joins, Returns u') \<Rightarrow>
                     if e = KeyboardInterrupt
                     then (banner # starts @ evs @ handler @ joins @ [complete k], Returns ())
                     else (banner # starts @ evs @ joins, Raises e)
                 | (joins, r) \<Rightarrow> (banner # starts @ evs @ handler @ joins, r)))"

text \<open>
  Observers of a supervisor trace. \<open>joined_at_reports evs []\<close> lists, for every completion
  report in the trace, the processes whose \<^verbatim>\<open>join()\<close> had returned before it;
  \<open>terminations\<close> lists the processes sent \<^verbatim>\<open>terminate()\<close>, in order.
\<close>

fun joined_at_reports :: "sup_event list \<Rightarrow> nat list \<Rightarrow> nat list list" where
  "joined_at_reports [] js = []"
| "joined_at_reports (Join i # evs) js = joined_at_reports evs (js @ [i])"
| "joined_at_reports (PrintComplete l # evs) js = js # joined_at_reports evs js"
| "joined_at_reports (_ # evs) js = joined_at_reports evs js"

definition terminations :: "sup_event list \<Rightarrow> nat list" where
  "terminations evs = concat (map (\<lambda>e. case e of Terminate i \<Rightarrow> [i] | _ \<Rightarrow> []) evs)"

fun is_Join :: "sup_event \<Rightarrow> bool" where
  "is_Join (Join i) = True"
| "is_Join _ = False"

fun is_PrintInterrupt :: "sup_event \<Rightarrow> bool" where
  "is_PrintInterrupt (PrintInterrupt l) = True"
| "is_PrintInterrupt _ = False"

text \<open>The events that neither join, terminate, report completion nor announce an
  interrupt: those of the start phase and of the monitoring loop.\<close>

fun quiet :: "sup_event \<Rightarrow> bool" where
  "quiet (Join i) = False"
| "quiet (PrintComplete l) = False"
| "quiet (Terminate i) = False"
| "quiet (PrintInterrupt l) = False"
| "quiet _ = True"

text \<open>
  A run for the examples: every worker answers alive at the first poll, and the interrupt
  arrives during the sleep of the second.
\<close>

definition example_poll :: poll where
  "example_poll =
     \<lparr>alive_any = (\<lambda>i. True), alive_sum = (\<lambda>i. True),
      status_items = [(''Aarav Sharma #1'', [(''state'', PStr ''connecting'')])],
      interrupted = False\<rparr>"

definition example_sim_env :: sim_env where
  "example_sim_env =
     \<lparr>sim_random = (\<lambda>k. 0),
      sim_utcnow = (\<lambda>k. ''2024-01-01T00:00:0'' @ str_int (int k)),
      sim_polls = [example_poll, example_poll\<lparr>interrupted := True\<rparr>],
      sim_join_returns = (\<lambda>i. True)\<rparr>"

section \<open>The controller (\<^verbatim>\<open>monitor_streamlit.py\<close>)\<close>

text \<open>
  What the controller reads from outside: the process table, asked through
  \<^verbatim>\<open>os.kill(pid, sig)\<close>, which on a process id succeeds or raises \<^verbatim>\<open>OSError\<close> (the field
  gives the message of the error, if any); whether creating the log directory, opening
  the log file or \<^verbatim>\<open>subprocess.Popen\<close> fails with an \<^verbatim>\<open>OSError\<close>; the process id of a child
  that \<^verbatim>\<open>Popen\<close> starts; and \<^verbatim>\<open>sys.executable\<close>.
\<close>

record ctl_env =
  kill_error :: "int \<Rightarrow> int \<Rightarrow> string option"
  mkdir_error :: "string option"
  open_error :: "string option"
  popen_error :: "string option"
  popen_pid :: int
  sys_executable :: string

text \<open>
  What the controller does to the outside: signals sent, the steps of a launch, and the
  messages shown (\<^verbatim>\<open>st.warning\<close>, \<^verbatim>\<open>st.success\<close>).
\<close>

datatype ctl_event =
    Kill int int
  | MkdirParent string
  | OpenAppend string
  | Popen "string list"
  | Warning string
  | Success string

text \<open>The sidebar inputs, the numbers as \<^verbatim>\<open>str()\<close> renders them for the command line.\<close>

record config =
  cfg_users :: string
  cfg_meeting :: string
  cfg_stay :: string
  cfg_work :: string
  cfg_stagger :: string
  cfg_log_path :: string

text \<open>\<^verbatim>\<open>st.session_state.proc_pid\<close>: \<^verbatim>\<open>None\<close> or the process id of the last launch.\<close>

record session_state =
  proc_pid :: "int option"

definition os_kill :: "ctl_env \<Rightarrow> int \<Rightarrow> int \<Rightarrow> ctl_event list \<times> unit outcome" where
  "os_kill env pid sig =
     (case kill_error env pid sig of
        None \<Rightarrow> ([Kill pid sig], Returns ())
      | Some msg \<Rightarrow> ([Kill pid sig], Raises (OSError msg)))"

text \<open>
  \<^verbatim>\<open>is_pid_running\<close>, lines 176 to 184. \<^verbatim>\<open>not pid\<close> holds for \<^verbatim>\<open>None\<close> and for \<open>0\<close>; the
  \<^verbatim>\<open>except OSError\<close> clause catches that class only.
\<close>

definition is_pid_running :: "ctl_env \<Rightarrow> int option \<Rightarrow> ctl_event list \<times> bool outcome" where
  "is_pid_running env pid =
     (case pid of
        None \<Rightarrow> ([], Returns False)
      | Some p \<Rightarrow>
          if p = 0 then ([], Returns False)
          else (case os_kill env p 0 of
                  (evs, Returns u) \<Rightarrow> (evs, Returns True)
                | (evs, Raises e) \<Rightarrow> if is_OSError e then (evs, Returns False) else (evs, Raises e)
                | (evs, NoReturn) \<Rightarrow> (evs, NoReturn)))"

text \<open>\<^verbatim>\<open>f"{pid}"\<close> for the tracked process id.\<close>

definition str_pid :: "int option \<Rightarrow> string" where
  "str_pid pid = (case pid of None \<Rightarrow> ''None'' | Some p \<Rightarrow> str_int p)"

text \<open>
  The body of \<^verbatim>\<open>if st.button("Start Simulation")\<close>, lines 189 to 198: the session state
  after the click, what was done, and how the script run ended.
\<close>

definition start_simulation ::
  "ctl_env \<Rightarrow> config \<Rightarrow> session_state \<Rightarrow> session_state \<times> ctl_event list \<times> unit outcome" where
  "start_simulation env cfg st =
     (case is_pid_running env (proc_pid st) of
        (evs, Raises e) \<Rightarrow> (st, evs, Raises e)
      | (evs, NoReturn) \<Rightarrow> (st, evs, NoReturn)
      | (evs, Returns True) \<Rightarrow>
          (st, evs @ [Warning (''Simulation already running (pid='' @ str_pid (proc_pid st) @ '')'')],
           Returns ())
      | (evs, Returns False) \<Rightarrow>
          (let cmd = [sys_executable env, ''simulator.py'', ''--users'', cfg_users cfg,
                      ''--meeting'', cfg_meeting cfg, ''--stay'', cfg_stay cfg,
                      ''--work'', cfg_work cfg, ''--stagger'', cfg_stagger cfg,
                      ''--log'', cfg_log_path cfg]
           in case mkdir_error env of
                Some msg \<Rightarrow> (st, evs, Raises (OSError msg))
              | None \<Rightarrow>
                  (case open_error env of
                     Some msg \<Rightarrow>
                       (st, evs @ [MkdirParent (cfg_log_path cfg)], Raises (OSError msg))
                   | None \<Rightarrow>
                       (case popen_error env of
                          Some msg \<Rightarrow>
                            (st, evs @ [MkdirParent (cfg_log_path cfg),
                                        OpenAppend (cfg_log_path cfg)],
                             Raises (OSError msg))
                        | None \<Rightarrow>
                            (st\<lparr>proc_pid := Some (popen_pid env)\<rparr>,
                             evs @ [MkdirParent (cfg_log_path cfg),
                                    OpenAppend (cfg_log_path cfg),
                                    Popen cmd,
                                    Success (''Started simulation (pid='' @
                                             str_int (popen_pid env) @ '')'')],
                             Returns ())))))"

text \<open>The body of \<^verbatim>\<open>if st.button("Stop Simulation")\<close>, lines 202 to 208; \<^verbatim>\<open>SIGTERM\<close> is 15.\<close>

definition stop_simulation ::
  "ctl_env \<Rightarrow> session_state \<Rightarrow> session_state \<times> ctl_event list \<times> unit outcome" where
  "stop_simulation env st =
     (case is_pid_running env (proc_pid st) of
        (evs, Raises e) \<Rightarrow> (st, evs, Raises e)
      | (evs, NoReturn) \<Rightarrow> (st, evs, NoReturn)
      | (evs, Returns False) \<Rightarrow> (st, evs @ [Warning ''No running simulation detected''], Returns ())
      | (evs, Returns True) \<Rightarrow>
          (case proc_pid st of
             None \<Rightarrow> (st, evs, Raises (TypeError ''an integer is required''))
           | Some p \<Rightarrow>
               (case os_kill env p 15 of
                  (evs', Returns u) \<Rightarrow>
                    (st\<lparr>proc_pid := None\<rparr>, evs @ evs' @ [Success ''Stopped simulation''],
                     Returns ())
                | (evs', r) \<Rightarrow> (st, evs @ evs', r))))"

text \<open>A process table for the examples: process 4321 exists, no other does.\<close>

definition example_ctl_env :: ctl_env where
  "example_ctl_env =
     \<lparr>kill_error = (\<lambda>pid sig. if pid = 4321 then None else Some ''[Errno 3] No such process''),
      mkdir_error = None,
      open_error = None,
      popen_error = None,
      popen_pid = 5000,
      sys_executable = ''/usr/bin/python3''\<rparr>"

section \<open>Helper lemmas: decimal numerals\<close>

lemma digit_below_ten: "d < 10 \<Longrightarrow> d \<in> {0, 1, 2, 3, 4, 5, 6, 7, 8, 9 :: nat}"
  by auto

lemma digit_val_digit_char: "d < 10 \<Longrightarrow> digit_val (digit_char d) = d"
  by (drule digit_below_ten) (auto simp: digit_val_def digit_char_def)

lemma digit_char_not_hash: "d < 10 \<Longrightarrow> digit_char d \<noteq> CHR ''#''"
  by (drule digit_below_ten) (auto simp: digit_char_def)

lemma parse_nat_snoc: "parse_nat (s @ [c]) = 10 * parse_nat s + digit_val c"
  by (simp add: parse_nat_def)

lemma parse_str_nat: "parse_nat (str_nat n) = n"
proof (induction n rule: str_nat.induct)
  case (1 n)
  show ?case
  proof (cases "n < 10")
    case True
    then show ?thesis
      by (subst str_nat.simps) (simp add: parse_nat_def digit_val_digit_char)
  next
    case False
    with 1 have "parse_nat (str_nat (n div 10)) = n div 10" by simp
    with False show ?thesis
      by (subst str_nat.simps) (simp add: parse_nat_snoc digit_val_digit_char)
  qed
qed

lemma str_nat_inj: "str_nat m = str_nat n \<Longrightarrow> m = n"
  by (metis parse_str_nat)

lemma str_nat_no_hash: "CHR ''#'' \<notin> set (str_nat n)"
proof (induction n rule: str_nat.induct)
  case (1 n)
  show ?case
  proof (cases "n < 10")
    case True
    then show ?thesis
      using digit_char_not_hash [of n] by (subst str_nat.simps) auto
  next
    case False
    with 1 have "CHR ''#'' \<notin> set (str_nat (n div 10))" by simp
    moreover have "digit_char (n mod 10) \<noteq> CHR ''#''"
      by (rule digit_char_not_hash) simp
    ultimately show ?thesis using False
      by (subst str_nat.simps) auto
  qed
qed

section \<open>Helper lemmas: names\<close>

text \<open>Whatever precedes it, the text after the last \<open>#\<close> of a name is its number.\<close>

lemma after_last_hash:
  assumes "CHR ''#'' \<notin> set ds"
  shows "rev (takeWhile (\<lambda>c. c \<noteq> CHR ''#'') (rev (xs @ CHR ''#'' # ds))) = ds"
proof -
  have tw: "takeWhile (\<lambda>c. c \<noteq> CHR ''#'') (rev ds) = rev ds"
    using assms by (auto simp: takeWhile_eq_all_conv)
  show ?thesis by (simp add: takeWhile_tail tw)
qed

lemma make_name_shape:
  "0 \<le> i \<Longrightarrow>
   make_name rnd i =
     (random_choice first_names (rnd (2 * nat i)) @ '' '' @
      random_choice last_names (rnd (2 * nat i + 1)) @ '' '') @
     CHR ''#'' # str_nat (nat (i + 1))"
  by (simp add: make_name_def str_int_def)

lemma make_name_number:
  assumes "0 \<le> i"
  shows "rev (takeWhile (\<lambda>c. c \<noteq> CHR ''#'') (rev (make_name rnd i))) = str_nat (nat (i + 1))"
  unfolding make_name_shape [OF assms]
  by (rule after_last_hash [OF str_nat_no_hash])

lemma make_name_inj:
  assumes i: "0 \<le> i" and j: "0 \<le> j" and eq: "make_name rnd i = make_name rnd j"
  shows "i = j"
proof -
  have "str_nat (nat (i + 1)) = str_nat (nat (j + 1))"
    using make_name_number [OF i, of rnd] make_name_number [OF j, of rnd] eq by simp
  then have "nat (i + 1) = nat (j + 1)" by (rule str_nat_inj)
  with i j show "i = j" by simp
qed

lemma distinct_generate_names: "distinct (generate_names rnd count)"
proof -
  have "inj_on (make_name rnd) (set (py_range count))"
  proof (rule inj_onI)
    fix i j
    assume "i \<in> set (py_range count)" "j \<in> set (py_range count)"
      and eq: "make_name rnd i = make_name rnd j"
    then have "0 \<le> i" "0 \<le> j" by (auto simp: py_range_def)
    then show "i = j" using eq by (rule make_name_inj)
  qed
  moreover have "distinct (py_range count)"
    by (simp add: py_range_def distinct_map)
  ultimately show ?thesis
    by (simp add: generate_names_def distinct_map)
qed

lemma length_generate_names: "length (generate_names rnd count) = nat count"
  by (simp add: generate_names_def py_range_def)

lemma nth_generate_names:
  "i < nat count \<Longrightarrow> generate_names rnd count ! i = make_name rnd (int i)"
  by (simp add: generate_names_def py_range_def)

section \<open>Helper lemmas: the CPU work loop\<close>

lemma isqrt_correct: "isqrt n * isqrt n \<le> n \<and> n < (isqrt n + 1) * (isqrt n + 1)"
proof (induction n rule: isqrt.induct)
  case (1 n)
  show ?case
  proof (cases "n < 4")
    case True
    then show ?thesis by (subst (1 2 3 4) isqrt.simps) auto
  next
    case False
    define s where "s = isqrt (n div 4)"
    from 1 False have IH: "s * s \<le> n div 4" "n div 4 < (s + 1) * (s + 1)"
      by (simp_all add: s_def)
    have lo: "(2 * s) * (2 * s) \<le> n"
    proof -
      have "4 * (s * s) \<le> 4 * (n div 4)" using IH(1) by simp
      also have "\<dots> \<le> n" by simp
      finally show ?thesis by (simp add: algebra_simps)
    qed
    have hi: "n < (2 * s + 2) * (2 * s + 2)"
    proof -
      have "n < 4 * (n div 4 + 1)" by simp
      also have "\<dots> \<le> 4 * ((s + 1) * (s + 1))" using IH(2) by simp
      finally show ?thesis by (simp add: algebra_simps)
    qed
    have eq: "isqrt n = (if (2 * s + 1) * (2 * s + 1) \<le> n then 2 * s + 1 else 2 * s)"
      using False by (subst isqrt.simps) (simp add: s_def Let_def)
    show ?thesis
      using lo hi by (auto simp: eq)
  qed
qed

lemma le_isqrt_iff: "i \<le> isqrt n \<longleftrightarrow> i * i \<le> n"
proof
  assume "i \<le> isqrt n"
  then have "i * i \<le> isqrt n * isqrt n" by (intro mult_le_mono)
  with isqrt_correct [of n] show "i * i \<le> n" by simp
next
  assume a: "i * i \<le> n"
  show "i \<le> isqrt n"
  proof (rule ccontr)
    assume "\<not> i \<le> isqrt n"
    then have "isqrt n + 1 \<le> i" by simp
    then have "(isqrt n + 1) * (isqrt n + 1) \<le> i * i" by (intro mult_le_mono)
    with isqrt_correct [of n] a show False by simp
  qed
qed

lemma set_py_range3_odd:
  "set (py_range3 3 (r + 1) 2) = {i. 3 \<le> i \<and> i \<le> r \<and> odd i}"
proof (intro set_eqI iffI)
  fix i assume "i \<in> set (py_range3 3 (r + 1) 2)"
  then obtain k where k: "k < nat ((r + 1 - 3 + 2 - 1) div 2)" and i: "i = 3 + int k * 2"
    by (auto simp: py_range3_def)
  then show "i \<in> {i. 3 \<le> i \<and> i \<le> r \<and> odd i}" by auto
next
  fix i assume "i \<in> {i. 3 \<le> i \<and> i \<le> r \<and> odd i}"
  then have a: "3 \<le> i" "i \<le> r" "odd i" by auto
  define k where "k = nat ((i - 3) div 2)"
  have "i = 3 + int k * 2" using a by (auto simp: k_def elim!: oddE)
  moreover have "k < nat ((r + 1 - 3 + 2 - 1) div 2)" using a by (auto simp: k_def elim!: oddE)
  ultimately show "i \<in> set (py_range3 3 (r + 1) 2)"
    by (auto simp: py_range3_def intro!: image_eqI [where x = k])
qed

lemma trial_division_iff: "trial_division n is \<longleftrightarrow> (\<forall>i \<in> set is. n mod i \<noteq> 0)"
  by (induction "is") auto

lemma randint_bounds: "a \<le> b \<Longrightarrow> a \<le> randint a b raw \<and> randint a b raw \<le> b"
proof -
  assume "a \<le> b"
  then have "0 < nat (b - a + 1)" by simp
  then have "raw mod nat (b - a + 1) < nat (b - a + 1)" by (rule mod_less_divisor)
  then have "int (raw mod nat (b - a + 1)) < int (nat (b - a + 1))"
    by (simp only: of_nat_less_iff)
  then show ?thesis using \<open>a \<le> b\<close> by (simp add: randint_def)
qed

lemma or_one_int: "odd ((n::int) OR 1) \<and> n \<le> (n OR 1) \<and> (n OR 1) \<le> n + 1"
  by (simp add: or_one_eq)

lemma cpu_loop_invariant:
  assumes "cpu_loop end ts rnd count tested = Returns (count', tested')"
    and "count = int (length tested)"
    and "\<forall>(n, p) \<in> set tested. Q n p"
    and "\<And>raw. Q (randint 100000 1000000 raw OR 1)
           (trial_division (randint 100000 1000000 raw OR 1)
              (py_range3 3 (int (isqrt (nat (randint 100000 1000000 raw OR 1))) + 1) 2))"
  shows "count' = int (length tested') \<and> (\<forall>(n, p) \<in> set tested'. Q n p)
       \<and> length tested' = length tested + length (takeWhile (\<lambda>t. t < end) ts)"
  using assms
proof (induction ts arbitrary: rnd count tested)
  case Nil
  then show ?case by simp
next
  case (Cons t ts)
  show ?case
  proof (cases "t < end")
    case False
    with Cons.prems show ?thesis by auto
  next
    case True
    define n where "n = randint 100000 1000000 (rnd 0) OR 1"
    have "0 \<le> n" using randint_bounds [of 100000 1000000 "rnd 0"] or_one_int [of "randint 100000 1000000 (rnd 0)"]
      by (simp add: n_def)
    then have r: "math_isqrt n = Returns (int (isqrt (nat n)))" by (simp add: math_isqrt_def)
    define p where "p = trial_division n (py_range3 3 (int (isqrt (nat n)) + 1) 2)"
    from Cons.prems(1) True
    have run: "cpu_loop end ts (\<lambda>k. rnd (Suc k)) (count + 1) (tested @ [(n, p)]) = Returns (count', tested')"
      by (simp add: n_def [symmetric] r p_def [symmetric] Let_def)
    have "Q n p" unfolding n_def p_def by (rule Cons.prems(4))
    with Cons.prems(3) have all: "\<forall>(n, p) \<in> set (tested @ [(n, p)]). Q n p" by auto
    have cnt: "count + 1 = int (length (tested @ [(n, p)]))" using Cons.prems(2) by simp
    show ?thesis
      using Cons.IH [OF run cnt all Cons.prems(4)] True by simp
  qed
qed

lemma cpu_loop_returns:
  assumes "\<exists>t \<in> set ts. \<not> t < end"
  shows "\<exists>res. cpu_loop end ts rnd count tested = Returns res"
  using assms
proof (induction ts arbitrary: rnd count tested)
  case Nil
  then show ?case by simp
next
  case (Cons t ts)
  show ?case
  proof (cases "t < end")
    case False
    then show ?thesis by simp
  next
    case True
    define n where "n = randint 100000 1000000 (rnd 0) OR 1"
    have "0 \<le> n" using randint_bounds [of 100000 1000000 "rnd 0"] or_one_int [of "randint 100000 1000000 (rnd 0)"]
      by (simp add: n_def)
    then have r: "math_isqrt n = Returns (int (isqrt (nat n)))" by (simp add: math_isqrt_def)
    from Cons.prems True have "\<exists>t \<in> set ts. \<not> t < end" by auto
    from Cons.IH [OF this] True show ?thesis
      by (simp add: n_def [symmetric] r Let_def)
  qed
qed

lemma odd_trial_iff_prime:
  fixes n :: int
  assumes "odd n" and "3 \<le> n"
  shows "(\<forall>i. odd i \<and> 3 \<le> i \<and> i * i \<le> n \<longrightarrow> n mod i \<noteq> 0) \<longleftrightarrow> is_prime_int n"
proof
  assume nodiv: "\<forall>i. odd i \<and> 3 \<le> i \<and> i * i \<le> n \<longrightarrow> n mod i \<noteq> 0"
  show "is_prime_int n"
    unfolding is_prime_int_def
  proof (intro conjI allI impI)
    show "1 < n" using assms by simp
    fix d assume d: "0 < d \<and> d dvd n"
    show "d = 1 \<or> d = n"
    proof (rule ccontr)
      assume neq: "\<not> (d = 1 \<or> d = n)"
      from d obtain e where e: "n = d * e" by (auto elim: dvdE)
      have npos: "0 < d * e" using assms(2) e by simp
      have epos: "0 < e" using d npos by (simp add: zero_less_mult_iff)
      have "odd d" "odd e" using assms(1) e by auto
      have "e \<noteq> 1" using neq e by auto
      have "0 < d" "d \<noteq> 1" using d neq by auto
      with \<open>odd d\<close> have d3: "3 \<le> d" by presburger
      have e3: "3 \<le> e" using \<open>odd e\<close> epos \<open>e \<noteq> 1\<close> by presburger
      show False
      proof (cases "d \<le> e")
        case True
        then have "d * d \<le> d * e" using d by (simp add: mult_left_mono)
        with nodiv \<open>odd d\<close> d3 e have "n mod d \<noteq> 0" by auto
        with d show False by auto
      next
        case False
        then have "e * e \<le> d * e" using epos by (simp add: mult_right_mono)
        with nodiv \<open>odd e\<close> e3 e have "n mod e \<noteq> 0" by auto
        with e show False by auto
      qed
    qed
  qed
next
  assume p: "is_prime_int n"
  show "\<forall>i. odd i \<and> 3 \<le> i \<and> i * i \<le> n \<longrightarrow> n mod i \<noteq> 0"
  proof (intro allI impI notI)
    fix i assume i: "odd i \<and> 3 \<le> i \<and> i * i \<le> n" and "n mod i = 0"
    then have "i dvd n" by auto
    moreover have "0 < i" "i \<noteq> 1" using i by auto
    ultimately have "i = n" using p unfolding is_prime_int_def by blast
    with i have "n * n \<le> n * 1" by simp
    then have "n \<le> 1" using assms(2) by (subst (asm) mult_le_cancel_left_pos) auto
    with assms show False by simp
  qed
qed




section \<open>Helper lemmas: the worker\<close>

lemma map_of_dict_setitem: "map_of (dict_setitem d k v) = (map_of d)(k \<mapsto> v)"
  by (induction d) (auto simp: fun_eq_iff)

lemma exec_append:
  "exec (cs @ ds) s =
     (case exec cs s of
        (tr, Returns u) \<Rightarrow> (case exec ds (last (s # tr)) of (tr', r) \<Rightarrow> (tr @ tr', r))
      | (tr, Raises e) \<Rightarrow> (tr, Raises e)
      | (tr, NoReturn) \<Rightarrow> (tr, NoReturn))"
  by (induction cs arbitrary: s) (auto split: outcome.splits prod.splits)

lemmas lifecycle_defs = worker_lifecycle_def init_wstate_def utcnow_z_def time_sleep_def
  entry_assign_def entry_assign_now_def status_getitem_def status_setitem_def obj_setitem_def
  new_dict_def deref_def map_of_dict_setitem

lemmas view_defs = shared_state_def table_entry_def List.map_filter_simps

lemma lifecycle_plain:
  assumes "cpu_work_for work_seconds (env_clock env) (env_random env) = Returns jobs"
  shows "\<exists>tr s. exec (worker_lifecycle env name stay_seconds work_seconds PlainDict stagger)
                  (init_wstate m) = (tr, Returns ())
          \<and> length tr = 16 \<and> last tr = s
          \<and> effects s = (if 0 < stagger then [Sleep stagger] else []) @
                         [Sleep (max 0 (real_of_int stay_seconds - work_seconds))]
          \<and> v_started_at s = env_utcnow env 0 @ ''Z''
          \<and> v_jobs_done s = jobs
          \<and> v_remaining s = max 0 (real_of_int stay_seconds - work_seconds)
          \<and> table_entry (mem s) name =
              Some [(''state'', PStr ''left''), (''pid'', PInt (env_pid env)),
                    (''started_at'', PStr (env_utcnow env 0 @ ''Z'')),
                    (''connected_at'', PStr (env_utcnow env 1 @ ''Z'')),
                    (''work_started_at'', PStr (env_utcnow env 2 @ ''Z'')),
                    (''work_done'', PInt jobs),
                    (''work_finished_at'', PStr (env_utcnow env 3 @ ''Z'')),
                    (''left_at'', PStr (env_utcnow env 4 @ ''Z''))]
          \<and> (map_of (table m) name = None \<longrightarrow>
               List.map_filter (shared_state name) tr =
                 [PStr ''connecting'', PStr ''connecting'', PStr ''connected'',
                  PStr ''connected'', PStr ''working'', PStr ''working'', PStr ''working'',
                  PStr ''working'', PStr ''working'', PStr ''working'', PStr ''idle'',
                  PStr ''idle'', PStr ''left'', PStr ''left''])"
  using assms by (simp add: lifecycle_defs view_defs eval_nat_numeral)

lemma lifecycle_proxy:
  assumes "cpu_work_for work_seconds (env_clock env) (env_random env) = Returns jobs"
  shows "\<exists>tr s. exec (worker_lifecycle env name stay_seconds work_seconds ManagerProxy stagger)
                  (init_wstate m) = (tr, Returns ())
          \<and> length tr = 16 \<and> last tr = s
          \<and> effects s = (if 0 < stagger then [Sleep stagger] else []) @
                         [Sleep (max 0 (real_of_int stay_seconds - work_seconds))]
          \<and> v_started_at s = env_utcnow env 0 @ ''Z''
          \<and> v_jobs_done s = jobs
          \<and> v_remaining s = max 0 (real_of_int stay_seconds - work_seconds)
          \<and> table_entry (mem s) name =
              Some [(''state'', PStr ''connecting''), (''pid'', PInt (env_pid env)),
                    (''started_at'', PStr (env_utcnow env 0 @ ''Z''))]
          \<and> (map_of (table m) name = None \<longrightarrow>
               List.map_filter (shared_state name) tr = replicate 14 (PStr ''connecting''))"
  using assms by (simp add: lifecycle_defs view_defs eval_nat_numeral)

lemma status_getitem_entry:
  assumes "table_entry (mem s) name = Some d"
  shows "\<exists>a m'. status_getitem kind name (mem s) = Returns (a, m')
          \<and> deref m' a = d \<and> table_entry m' name = Some d"
  using assms
  by (cases kind)
     (auto simp: status_getitem_def table_entry_def new_dict_def deref_def)

lemma write_log_result:
  assumes "table_entry (mem s) name = Some d"
  shows "\<exists>s'. write_log kind env name meeting_code log_path s = Returns s'
          \<and> table_entry (mem s') name = Some d
          \<and> v_remaining s' = v_remaining s
          \<and> effects s' = effects s @
              (case log_path of
                 None \<Rightarrow> []
               | Some path \<Rightarrow>
                   if path = [] then []
                   else (case env_open_error env of
                           Some msg \<Rightarrow> [Print (''Could not write log: '' @ msg)]
                         | None \<Rightarrow>
                             (case env_write_error env of
                                Some msg \<Rightarrow> [Print (''Could not write log: '' @ msg)]
                              | None \<Rightarrow>
                                  [FileAppend path
                                     (json_dumps
                                        [(''name'', PStr name),
                                         (''meeting_code'', PStr meeting_code),
                                         (''started_at'', PStr (v_started_at s)),
                                         (''left_at'', dict_get d ''left_at''),
                                         (''work_done'', PInt (v_jobs_done s))] @
                                      [CHR 0x0A])])))"
proof -
  from status_getitem_entry [OF assms, of kind] obtain a m' where
    g: "status_getitem kind name (mem s) = Returns (a, m')"
      "deref m' a = d" "table_entry m' name = Some d"
    by blast
  show ?thesis
    by (cases log_path; cases "env_open_error env"; cases "env_write_error env")
       (simp_all add: write_log_def g append_text_def log_record_def assms)
qed

lemma worker_run:
  assumes "cpu_work_for work_seconds (env_clock env) (env_random env) = Returns jobs"
  shows "\<exists>tr s entry.
           worker env name meeting_code passcode stay_seconds work_seconds kind m log_path
             stagger = (tr, Returns ())
         \<and> length tr = 17 \<and> last tr = s
         \<and> table_entry (mem s) name = Some entry
         \<and> entry =
             (case kind of
                PlainDict \<Rightarrow>
                  [(''state'', PStr ''left''), (''pid'', PInt (env_pid env)),
                   (''started_at'', PStr (env_utcnow env 0 @ ''Z'')),
                   (''connected_at'', PStr (env_utcnow env 1 @ ''Z'')),
                   (''work_started_at'', PStr (env_utcnow env 2 @ ''Z'')),
                   (''work_done'', PInt jobs),
                   (''work_finished_at'', PStr (env_utcnow env 3 @ ''Z'')),
                   (''left_at'', PStr (env_utcnow env 4 @ ''Z''))]
              | ManagerProxy \<Rightarrow>
                  [(''state'', PStr ''connecting''), (''pid'', PInt (env_pid env)),
                   (''started_at'', PStr (env_utcnow env 0 @ ''Z''))])
         \<and> v_remaining s = max 0 (real_of_int stay_seconds - work_seconds)
         \<and> effects s =
             (if 0 < stagger then [Sleep stagger] else []) @
             [Sleep (max 0 (real_of_int stay_seconds - work_seconds))] @
             (case log_path of
                None \<Rightarrow> []
              | Some path \<Rightarrow>
                  if path = [] then []
                  else (case env_open_error env of
                          Some msg \<Rightarrow> [Print (''Could not write log: '' @ msg)]
                        | None \<Rightarrow>
                            (case env_write_error env of
                               Some msg \<Rightarrow> [Print (''Could not write log: '' @ msg)]
                             | None \<Rightarrow>
                                 [FileAppend path
                                    (json_dumps
                                       [(''name'', PStr name),
                                        (''meeting_code'', PStr meeting_code),
                                        (''started_at'', PStr (env_utcnow env 0 @ ''Z'')),
                                        (''left_at'', dict_get entry ''left_at''),
                                        (''work_done'', PInt jobs)] @
                                     [CHR 0x0A])])))
         \<and> (map_of (table m) name = None \<longrightarrow>
              recorded_states name tr =
                (case kind of
                   PlainDict \<Rightarrow>
                     [PStr ''connecting'', PStr ''connected'', PStr ''working'', PStr ''idle'',
                      PStr ''left'']
                 | ManagerProxy \<Rightarrow> [PStr ''connecting'']))"
proof -
  define entry where "entry =
             (case kind of
                PlainDict \<Rightarrow>
                  [(''state'', PStr ''left''), (''pid'', PInt (env_pid env)),
                   (''started_at'', PStr (env_utcnow env 0 @ ''Z'')),
                   (''connected_at'', PStr (env_utcnow env 1 @ ''Z'')),
                   (''work_started_at'', PStr (env_utcnow env 2 @ ''Z'')),
                   (''work_done'', PInt jobs),
                   (''work_finished_at'', PStr (env_utcnow env 3 @ ''Z'')),
                   (''left_at'', PStr (env_utcnow env 4 @ ''Z''))]
              | ManagerProxy \<Rightarrow>
                  [(''state'', PStr ''connecting''), (''pid'', PInt (env_pid env)),
                   (''started_at'', PStr (env_utcnow env 0 @ ''Z''))])"
  define seen where "seen =
     (case kind of
        PlainDict \<Rightarrow>
                 [PStr ''connecting'', PStr ''connecting'', PStr ''connected'',
                  PStr ''connected'', PStr ''working'', PStr ''working'', PStr ''working'',
                  PStr ''working'', PStr ''working'', PStr ''working'', PStr ''idle'',
                  PStr ''idle'', PStr ''left'', PStr ''left'']
      | ManagerProxy \<Rightarrow> replicate 14 (PStr ''connecting''))"
  have "\<exists>tr s. exec (worker_lifecycle env name stay_seconds work_seconds kind stagger)
                  (init_wstate m) = (tr, Returns ())
          \<and> length tr = 16 \<and> last tr = s
          \<and> effects s = (if 0 < stagger then [Sleep stagger] else []) @
                         [Sleep (max 0 (real_of_int stay_seconds - work_seconds))]
          \<and> v_started_at s = env_utcnow env 0 @ ''Z''
          \<and> v_jobs_done s = jobs
          \<and> v_remaining s = max 0 (real_of_int stay_seconds - work_seconds)
          \<and> table_entry (mem s) name = Some entry
          \<and> (map_of (table m) name = None \<longrightarrow>
               List.map_filter (shared_state name) tr = seen)"
    using lifecycle_plain [OF assms, of name stay_seconds stagger m]
      lifecycle_proxy [OF assms, of name stay_seconds stagger m]
    unfolding entry_def seen_def by (cases kind) simp_all
  then obtain tr s where life:
      "exec (worker_lifecycle env name stay_seconds work_seconds kind stagger)
         (init_wstate m) = (tr, Returns ())"
      "length tr = 16" "last tr = s"
      "effects s = (if 0 < stagger then [Sleep stagger] else []) @
                         [Sleep (max 0 (real_of_int stay_seconds - work_seconds))]"
      "v_started_at s = env_utcnow env 0 @ ''Z''"
      "v_jobs_done s = jobs"
      "v_remaining s = max 0 (real_of_int stay_seconds - work_seconds)"
      "table_entry (mem s) name = Some entry"
      "map_of (table m) name = None \<longrightarrow> List.map_filter (shared_state name) tr = seen"
    by (elim exE conjE) (rule that; assumption)
  from write_log_result [OF life(8), of kind env meeting_code log_path] obtain s' where log:
      "write_log kind env name meeting_code log_path s = Returns s'"
      "table_entry (mem s') name = Some entry"
      "v_remaining s' = v_remaining s"
      "effects s' = effects s @
              (case log_path of
                 None \<Rightarrow> []
               | Some path \<Rightarrow>
                   if path = [] then []
                   else (case env_open_error env of
                           Some msg \<Rightarrow> [Print (''Could not write log: '' @ msg)]
                         | None \<Rightarrow>
                             (case env_write_error env of
                                Some msg \<Rightarrow> [Print (''Could not write log: '' @ msg)]
                              | None \<Rightarrow>
                                  [FileAppend path
                                     (json_dumps
                                        [(''name'', PStr name),
                                         (''meeting_code'', PStr meeting_code),
                                         (''started_at'', PStr (v_started_at s)),
                                         (''left_at'', dict_get entry ''left_at''),
                                         (''work_done'', PInt (v_jobs_done s))] @
                                      [CHR 0x0A])])))"
    by (elim exE conjE) (rule that; assumption)
  note log4 = log(4) [unfolded life(5) life(6)]
  have ne: "tr \<noteq> []" using life(2) by auto
  have run: "worker env name meeting_code passcode stay_seconds work_seconds kind m log_path
             stagger = (tr @ [s'], Returns ())"
    using ne by (simp add: worker_def worker_body_def exec_append life(1,3) log(1))
  have st: "shared_state name s' = map_of entry ''state''"
    by (simp add: shared_state_def log(2))
  have seen: "map_of (table m) name = None \<Longrightarrow>
      recorded_states name (tr @ [s']) =
                (case kind of
                   PlainDict \<Rightarrow>
                     [PStr ''connecting'', PStr ''connected'', PStr ''working'', PStr ''idle'',
                      PStr ''left'']
                 | ManagerProxy \<Rightarrow> [PStr ''connecting''])"
    using life(9)
    by (cases kind)
       (simp_all add: recorded_states_def List.map_filter_def st entry_def seen_def
          eval_nat_numeral)
  show ?thesis
    by (intro exI [of _ "tr @ [s']"] exI [of _ s'] exI [of _ entry])
       (simp add: run life(2,3,4,7,8) log(2,3) log4 seen, simp add: entry_def)
qed











text \<open>
  The states a worker's table entry goes through, for both kinds of table. On an ordinary
  dict the five lifecycle states appear in order. Through the manager proxy the four
  later assignments change copies only, and the table keeps the first value.
\<close>

lemma worker_states_summary:
  assumes "cpu_work_for work_seconds (env_clock env) (env_random env) = Returns jobs"
    and "map_of (table m) name = None"
  shows "\<exists>tr. worker env name meeting_code passcode stay_seconds work_seconds kind m log_path
                 stagger = (tr, Returns ())
             \<and> recorded_states name tr =
                 (case kind of
                    PlainDict \<Rightarrow>
                      [PStr ''connecting'', PStr ''connected'', PStr ''working'', PStr ''idle'',
                       PStr ''left'']
                  | ManagerProxy \<Rightarrow> [PStr ''connecting''])
             \<and> shared_state name (last tr) =
                 Some (case kind of
                         PlainDict \<Rightarrow> PStr ''left''
                       | ManagerProxy \<Rightarrow> PStr ''connecting'')"
proof -
  from worker_run [OF assms(1), of name meeting_code passcode stay_seconds kind m log_path
      stagger]
  obtain tr s entry where
    run: "worker env name meeting_code passcode stay_seconds work_seconds kind m log_path
             stagger = (tr, Returns ())"
    and s: "last tr = s"
    and ent: "table_entry (mem s) name = Some entry"
    and ent_eq: "entry =
             (case kind of
                PlainDict \<Rightarrow>
                  [(''state'', PStr ''left''), (''pid'', PInt (env_pid env)),
                   (''started_at'', PStr (env_utcnow env 0 @ ''Z'')),
                   (''connected_at'', PStr (env_utcnow env 1 @ ''Z'')),
                   (''work_started_at'', PStr (env_utcnow env 2 @ ''Z'')),
                   (''work_done'', PInt jobs),
                   (''work_finished_at'', PStr (env_utcnow env 3 @ ''Z'')),
                   (''left_at'', PStr (env_utcnow env 4 @ ''Z''))]
              | ManagerProxy \<Rightarrow>
                  [(''state'', PStr ''connecting''), (''pid'', PInt (env_pid env)),
                   (''started_at'', PStr (env_utcnow env 0 @ ''Z''))])"
    and seen: "map_of (table m) name = None \<longrightarrow>
              recorded_states name tr =
                (case kind of
                   PlainDict \<Rightarrow>
                     [PStr ''connecting'', PStr ''connected'', PStr ''working'', PStr ''idle'',
                      PStr ''left'']
                 | ManagerProxy \<Rightarrow> [PStr ''connecting''])"
    by (elim exE conjE) (rule that; assumption)
  have "shared_state name s =
                 Some (case kind of
                         PlainDict \<Rightarrow> PStr ''left''
                       | ManagerProxy \<Rightarrow> PStr ''connecting'')"
    unfolding shared_state_def ent ent_eq by (cases kind) simp_all
  with run seen assms(2) show ?thesis unfolding s [symmetric] by blast
qed

lemma example_cpu_work: "cpu_work_for 15 (env_clock example_env) (env_random example_env) = Returns 0"
  by (simp add: example_env_def cpu_work_for_def cpu_work_run_def)

section \<open>Helper lemmas: the supervisor\<close>

lemma print_sample_quiet: "\<forall>e \<in> set (fst (print_sample items)). quiet e"
  by (induction items rule: print_sample.induct) (auto split: option.splits prod.splits)

lemma monitor_quiet: "\<forall>e \<in> set (fst (monitor n now k ps)). quiet e"
proof (induction ps arbitrary: k)
  case Nil
  show ?case by simp
next
  case (Cons p ps)
  obtain evs r where ps: "print_sample (take 5 (status_items p)) = (evs, r)"
    by (cases "print_sample (take 5 (status_items p))")
  have q: "\<forall>e \<in> set evs. quiet e"
    using print_sample_quiet [of "take 5 (status_items p)"] ps by simp
  obtain evs' k' r' where m: "monitor n now (Suc k) ps = (evs', k', r')"
    by (cases "monitor n now (Suc k) ps")
  have q': "\<forall>e \<in> set evs'. quiet e"
    using Cons.IH [of "Suc k"] m by simp
  show ?case
    using q q' by (cases r) (auto simp: ps m Let_def)
qed

lemma join_all_shape:
  "\<exists>k \<le> length is. fst (join_all f is) = map Join (take k is)
      \<and> (snd (join_all f is) = Returns () \<longrightarrow> k = length is)
      \<and> (snd (join_all f is) = Returns () \<or> snd (join_all f is) = NoReturn)"
proof (induction "is")
  case Nil
  show ?case by simp
next
  case (Cons i "is")
  then obtain k where k: "k \<le> length is" "fst (join_all f is) = map Join (take k is)"
      "snd (join_all f is) = Returns () \<longrightarrow> k = length is"
      "snd (join_all f is) = Returns () \<or> snd (join_all f is) = NoReturn"
    by blast
  show ?case
  proof (cases "f i")
    case True
    with k show ?thesis
      by (intro exI [of _ "Suc k"]) (auto split: prod.splits)
  next
    case False
    then show ?thesis by (intro exI [of _ 0]) simp
  qed
qed

lemma join_all_returns: "\<forall>i \<in> set is. f i \<Longrightarrow> join_all f is = (map Join is, Returns ())"
  by (induction "is") auto

lemma reports_quiet:
  "\<forall>e \<in> set xs. quiet e \<or> is_PrintInterrupt e \<or> (\<exists>i. e = Terminate i) \<Longrightarrow>
   joined_at_reports (xs @ ys) js = joined_at_reports ys js"
proof (induction xs)
  case Nil
  show ?case by simp
next
  case (Cons e xs)
  then show ?case by (cases e) auto
qed

lemma reports_joins: "joined_at_reports (map Join is @ ys) js = joined_at_reports ys (js @ is)"
  by (induction "is" arbitrary: js) auto

lemma terminations_append: "terminations (xs @ ys) = terminations xs @ terminations ys"
  by (simp add: terminations_def)

lemma terminations_none:
  "\<forall>e \<in> set xs. quiet e \<or> is_Join e \<or> is_PrintInterrupt e \<or> (\<exists>l. e = PrintComplete l) \<Longrightarrow>
   terminations xs = []"
proof (induction xs)
  case Nil
  show ?case by (simp add: terminations_def)
next
  case (Cons e xs)
  then have "terminations xs = []" by simp
  moreover have "terminations (e # xs) = terminations [e] @ terminations xs"
    by (simp add: terminations_def)
  moreover have "terminations [e] = []"
    using Cons.prems by (cases e) (auto simp: terminations_def)
  ultimately show ?case by simp
qed

lemma terminations_all: "terminations (map Terminate is) = is"
  by (induction "is") (auto simp: terminations_def)

lemma dropWhile_no_join:
  "\<forall>e \<in> set xs. \<not> is_Join e \<Longrightarrow>
   dropWhile (\<lambda>e. \<not> is_Join e) (xs @ ys) = dropWhile (\<lambda>e. \<not> is_Join e) ys"
  by (induction xs) auto


lemma terminations_dropWhile:
  "terminations xs = [] \<Longrightarrow> terminations (dropWhile P xs) = []"
proof (induction xs)
  case Nil
  show ?case by (simp add: terminations_def)
next
  case (Cons e xs)
  have "terminations (e # xs) = terminations [e] @ terminations xs"
    by (simp add: terminations_def)
  with Cons.prems have "terminations xs = []" by simp
  with Cons show ?case by simp
qed

lemma run_simulation_shape:
  fixes env number_of_users meeting_code passcode stay_seconds work_seconds stagger logfile
  defines "n \<equiv> length (generate_names (sim_random env) number_of_users)"
  defines "watched \<equiv> snd (snd (monitor n (sim_utcnow env) 1 (sim_polls env)))"
  shows "\<exists>pre handler j tail.
           fst (run_simulation env number_of_users meeting_code passcode stay_seconds
                  work_seconds stagger logfile) =
             pre @ handler @ map Join (take j [0..<n]) @ tail
         \<and> (\<forall>e \<in> set pre. quiet e)
         \<and> handler =
             (if watched = Raises KeyboardInterrupt
              then PrintInterrupt ''KeyboardInterrupt received: terminating children'' #
                   map Terminate [0..<n]
              else [])
         \<and> (if snd (run_simulation env number_of_users meeting_code passcode stay_seconds
                      work_seconds stagger logfile) = Returns ()
             then j = n \<and> (\<exists>l. tail = [PrintComplete l]) else tail = [])
         \<and> ((\<forall>i<n. sim_join_returns env i) \<and>
              (watched = Returns () \<or> watched = Raises KeyboardInterrupt) \<longrightarrow>
              snd (run_simulation env number_of_users meeting_code passcode stay_seconds
                     work_seconds stagger logfile) = Returns ())"
proof -
  obtain mev k mr where
    m: "monitor n (sim_utcnow env) (Suc 0) (sim_polls env) = (mev, k, mr)"
    by (cases "monitor n (sim_utcnow env) (Suc 0) (sim_polls env)")
  have w: "watched = mr" by (simp add: watched_def m)
  have mq: "\<forall>e \<in> set mev. quiet e"
    using monitor_quiet [of n "sim_utcnow env" "Suc 0" "sim_polls env"] m by simp
  obtain jev jr where j: "join_all (sim_join_returns env) [0..<n] = (jev, jr)"
    by (cases "join_all (sim_join_returns env) [0..<n]")
  from join_all_shape [of "[0..<n]" "sim_join_returns env"] j
  obtain jn where jn: "jev = map Join (take jn [0..<n])" "jr = Returns () \<longrightarrow> jn = n"
    "jr = Returns () \<or> jr = NoReturn"
    by auto
  have jall: "(\<forall>i<n. sim_join_returns env i) \<longrightarrow> jr = Returns ()"
    using join_all_returns [of "[0..<n]" "sim_join_returns env"] j by auto
  define banner where "banner = PrintStart (''['' @ sim_utcnow env 0 @ ''Z] Starting simulation: '' @
                     str_int number_of_users @ '' participants'')"
  define starts where "starts = map (\<lambda>(i, name).
                     Start i \<lparr>arg_name = name, arg_meeting_code = meeting_code,
                              arg_passcode = passcode, arg_stay_seconds = stay_seconds,
                              arg_work_seconds = work_seconds, arg_log_path = logfile,
                              arg_stagger = real i * stagger\<rparr>)
                   (enumerate 0 (generate_names (sim_random env) number_of_users))"
  define pre where "pre = banner # starts @ mev"
  have pq: "\<forall>e \<in> set pre. quiet e"
    using mq by (auto simp: pre_def banner_def starts_def)
  define handler where "handler = PrintInterrupt ''KeyboardInterrupt received: terminating children'' #
                   map Terminate [0..<n]"
  define complete where "complete = PrintComplete (''['' @ sim_utcnow env k @
                       ''Z] Simulation complete. Logs -> '' @ logfile_or_stdout logfile)"
  let ?W = "run_simulation env number_of_users meeting_code passcode stay_seconds
              work_seconds stagger logfile"
  have unfold: "?W =
      (case mr of
         NoReturn \<Rightarrow> (pre, NoReturn)
       | Returns u \<Rightarrow>
           (case jr of
              Returns u' \<Rightarrow> (pre @ jev @ [complete], Returns ())
            | Raises e \<Rightarrow> (pre @ jev, Raises e)
            | NoReturn \<Rightarrow> (pre @ jev, NoReturn))
       | Raises e \<Rightarrow>
           (case jr of
              Returns u' \<Rightarrow>
                if e = KeyboardInterrupt then (pre @ handler @ jev @ [complete], Returns ())
                else (pre @ jev, Raises e)
            | Raises e' \<Rightarrow>
                (pre @ (if e = KeyboardInterrupt then handler else []) @ jev, Raises e')
            | NoReturn \<Rightarrow>
                (pre @ (if e = KeyboardInterrupt then handler else []) @ jev, NoReturn)))"
    by (simp add: run_simulation_def Let_def n_def [symmetric] m j pre_def banner_def
          starts_def handler_def complete_def
        split: outcome.splits)
  consider (a) "mr = NoReturn"
    | (b) "mr = Returns ()" "jr = Returns ()"
    | (c) "mr = Returns ()" "jr = NoReturn"
    | (d) "mr = Raises KeyboardInterrupt" "jr = Returns ()"
    | (e) "mr = Raises KeyboardInterrupt" "jr = NoReturn"
    | (f) x where "mr = Raises x" "x \<noteq> KeyboardInterrupt" "jr = Returns ()"
    | (g) x where "mr = Raises x" "x \<noteq> KeyboardInterrupt" "jr = NoReturn"
    using jn(3) by (cases mr) auto
  then show ?thesis
  proof cases
    case a
    then have "?W = (pre @ [] @ map Join (take 0 [0..<n]) @ [], NoReturn)"
      by (simp add: unfold)
    then show ?thesis
      using pq a w by (intro exI [of _ pre] exI [of _ "[]"] exI [of _ 0] exI [of _ "[]"]) simp
  next
    case b
    then have "?W = (pre @ [] @ map Join (take n [0..<n]) @ [complete], Returns ())"
      using jn by (simp add: unfold)
    then show ?thesis
      using pq b w
      by (intro exI [of _ pre] exI [of _ "[]"] exI [of _ n] exI [of _ "[complete]"])
         (simp add: complete_def)
  next
    case c
    then have "?W = (pre @ [] @ map Join (take jn [0..<n]) @ [], NoReturn)"
      using jn by (simp add: unfold)
    then show ?thesis
      using pq c w jall
      by (intro exI [of _ pre] exI [of _ "[]"] exI [of _ jn] exI [of _ "[]"]) simp
  next
    case d
    then have "?W = (pre @ handler @ map Join (take n [0..<n]) @ [complete], Returns ())"
      using jn by (simp add: unfold)
    then show ?thesis
      using pq d w
      by (intro exI [of _ pre] exI [of _ handler] exI [of _ n] exI [of _ "[complete]"])
         (simp add: complete_def handler_def)
  next
    case e
    then have "?W = (pre @ handler @ map Join (take jn [0..<n]) @ [], NoReturn)"
      using jn by (simp add: unfold)
    then show ?thesis
      using pq e w jall
      by (intro exI [of _ pre] exI [of _ handler] exI [of _ jn] exI [of _ "[]"])
         (simp add: handler_def)
  next
    case f
    then have "?W = (pre @ [] @ map Join (take n [0..<n]) @ [], Raises x)"
      using jn by (simp add: unfold)
    then show ?thesis
      using pq f w
      by (intro exI [of _ pre] exI [of _ "[]"] exI [of _ n] exI [of _ "[]"]) simp
  next
    case g
    then have "?W = (pre @ [] @ map Join (take jn [0..<n]) @ [], NoReturn)"
      using jn by (simp add: unfold)
    then show ?thesis
      using pq g w jall
      by (intro exI [of _ pre] exI [of _ "[]"] exI [of _ jn] exI [of _ "[]"]) simp
  qed
qed


lemma example_watched:
  "monitor 3 (sim_utcnow example_sim_env) 1 (sim_polls example_sim_env) =
     ([PrintAlive ''[2024-01-01T00:00:01Z] Alive workers: 3'',
       PrintSample ''  Aarav Sharma #1: connecting'',
       SupSleep 5,
       PrintAlive ''[2024-01-01T00:00:02Z] Alive workers: 3'',
       PrintSample ''  Aarav Sharma #1: connecting''],
      3, Raises KeyboardInterrupt)"
  by (simp add: example_sim_env_def example_poll_def upt_rec str_int_def str_nat.simps
        digit_char_def)


section \<open>Claim C1: the states recorded in the shared status table\<close>

text \<open>
  Claim C1 says that the states recorded for a participant in the shared status table are
  exactly connecting, connected, working, idle, left, in that order. The worker assigns
  these five values in that order (lemma \<open>worker_states_summary\<close>, case \<open>PlainDict\<close>), but
  the table \<^verbatim>\<open>run_simulation\<close> shares with its workers is a \<^verbatim>\<open>Manager().dict()\<close> proxy, and
  the assignments \<^verbatim>\<open>status_dict[name]["state"] = ...\<close> mutate the copy that the lookup
  \<^verbatim>\<open>status_dict[name]\<close> returned. The theorem runs the worker of the first participant
  of a run with stay 60, work 15 and no stagger on the proxy: the run completes, the table
  has recorded the single state connecting, and it still shows connecting after the
  worker has left.
\<close>

theorem worker_manager_dict_state_sequence:
  "\<exists>tr. worker example_env ''Aarav Sharma #1'' ''SIM-MEET-123'' [] 60 15 ManagerProxy
           empty_store (Some ''simulator.log'') 0 = (tr, Returns ())
       \<and> recorded_states ''Aarav Sharma #1'' tr = [PStr ''connecting'']
       \<and> shared_state ''Aarav Sharma #1'' (last tr) = Some (PStr ''connecting'')"
  using worker_states_summary [OF example_cpu_work, of empty_store "''Aarav Sharma #1''"
      "''SIM-MEET-123''" "[]" 60 ManagerProxy "Some ''simulator.log''" 0]
  by (simp add: empty_store_def)

section \<open>Claim C2: the idle time\<close>



section \<open>Claim C3: the CPU work loop\<close>

text \<open>
  Claim C3. In \<^verbatim>\<open>cpu_work_for\<close>, once a reading of the clock reaches the deadline the
  call returns; every candidate tested is an odd integer between \<open>10\<^sup>5\<close> and
  \<open>10\<^sup>6 + 1\<close>; its primality flag is decided by trial division by the odd numbers from
  3 up to the candidate's integer square root (and, for these candidates, is true exactly
  for the primes); every tested candidate, prime or not, increments the count, which is
  the number of clock readings seen before the deadline and so is non-negative.
\<close>

theorem cpu_work_for_candidates:
  assumes "clock = t0 # ts" and "\<exists>t \<in> set ts. \<not> t < t0 + seconds"
  shows "\<exists>count tested.
           cpu_work_run seconds clock rnd = Returns (count, tested)
         \<and> cpu_work_for seconds clock rnd = Returns count
         \<and> count = int (length tested) \<and> 0 \<le> count
         \<and> length tested = length (takeWhile (\<lambda>t. t < t0 + seconds) ts)
         \<and> (\<forall>(n, is_prime) \<in> set tested.
                odd n \<and> 10 ^ 5 \<le> n \<and> n \<le> 10 ^ 6 + 1
              \<and> (is_prime \<longleftrightarrow>
                   (\<forall>i. odd i \<and> 3 \<le> i \<and> i \<le> int (isqrt (nat n)) \<longrightarrow> n mod i \<noteq> 0))
              \<and> (is_prime \<longleftrightarrow> is_prime_int n))"
proof -
  define Q where "Q = (\<lambda>(n::int) is_prime.
      odd n \<and> 10 ^ 5 \<le> n \<and> n \<le> 10 ^ 6 + 1
    \<and> (is_prime \<longleftrightarrow>
         (\<forall>i. odd i \<and> 3 \<le> i \<and> i \<le> int (isqrt (nat n)) \<longrightarrow> n mod i \<noteq> 0))
    \<and> (is_prime \<longleftrightarrow> is_prime_int n))"
  have step: "Q (randint 100000 1000000 raw OR 1)
           (trial_division (randint 100000 1000000 raw OR 1)
              (py_range3 3 (int (isqrt (nat (randint 100000 1000000 raw OR 1))) + 1) 2))" for raw
  proof -
    define n where "n = randint 100000 1000000 raw OR 1"
    have b: "odd n" "100000 \<le> n" "n \<le> 1000001"
      using randint_bounds [of 100000 1000000 raw] or_one_int [of "randint 100000 1000000 raw"]
      by (simp_all add: n_def)
    have sq: "i \<le> int (isqrt (nat n)) \<longleftrightarrow> i * i \<le> n" if "3 \<le> i" for i
    proof -
      have "nat i \<le> isqrt (nat n) \<longleftrightarrow> nat i * nat i \<le> nat n" by (rule le_isqrt_iff)
      moreover have "nat i * nat i = nat (i * i)" using that by (simp add: nat_mult_distrib)
      ultimately show ?thesis using that b by (simp add: nat_le_iff)
    qed
    have sq': "(odd i \<and> 3 \<le> i \<and> i \<le> int (isqrt (nat n))) = (odd i \<and> 3 \<le> i \<and> i * i \<le> n)" for i
      using sq [of i] by auto
    have t: "trial_division n (py_range3 3 (int (isqrt (nat n)) + 1) 2) \<longleftrightarrow>
        (\<forall>i. odd i \<and> 3 \<le> i \<and> i \<le> int (isqrt (nat n)) \<longrightarrow> n mod i \<noteq> 0)"
      by (auto simp: trial_division_iff set_py_range3_odd)
    have "(\<forall>i. odd i \<and> 3 \<le> i \<and> i \<le> int (isqrt (nat n)) \<longrightarrow> n mod i \<noteq> 0) \<longleftrightarrow>
          (\<forall>i. odd i \<and> 3 \<le> i \<and> i * i \<le> n \<longrightarrow> n mod i \<noteq> 0)"
      by (simp only: sq')
    also have "\<dots> \<longleftrightarrow> is_prime_int n"
      using b by (intro odd_trial_iff_prime) auto
    finally show ?thesis
      using b t unfolding Q_def n_def [symmetric] by simp
  qed
  from assms(2) obtain res where "cpu_loop (t0 + seconds) ts rnd 0 [] = Returns res"
    using cpu_loop_returns by blast
  then obtain count tested where
    run: "cpu_loop (t0 + seconds) ts rnd 0 [] = Returns (count, tested)"
    by (cases res) auto
  have inv: "count = int (length tested) \<and> (\<forall>(n, p) \<in> set tested. Q n p)
       \<and> length tested = length ([] :: (int \<times> bool) list) + length (takeWhile (\<lambda>t. t < t0 + seconds) ts)"
    by (rule cpu_loop_invariant [where Q = Q, OF run]) (simp_all add: step)
  have "cpu_work_run seconds clock rnd = Returns (count, tested)"
    using run assms(1) by (simp add: cpu_work_run_def)
  moreover from this have "cpu_work_for seconds clock rnd = Returns count"
    by (simp add: cpu_work_for_def)
  ultimately show ?thesis
    using inv unfolding Q_def by (intro exI [of _ count] exI [of _ tested]) auto
qed

theorem cpu_work_for_candidates_witness:
  "cpu_work_run 3 [0, 1, 2, 5] (\<lambda>k. 2 * (k + 1)) = Returns (2, [(100003, True), (100005, False)])
   \<and> cpu_work_for 3 [0, 1, 2, 5] (\<lambda>k. 2 * (k + 1)) = Returns 2
   \<and> is_prime_int 100003 \<and> \<not> is_prime_int 100005"
proof -
  have r: "isqrt 100003 = 316" "isqrt 100005 = 316"
    by (simp_all add: isqrt.simps)
  have d: "trial_division 100003 (py_range3 3 317 2) = True"
          "trial_division 100005 (py_range3 3 317 2) = False"
    by code_simp+
  have run: "cpu_work_run 3 [0, 1, 2, 5] (\<lambda>k. 2 * (k + 1)) =
      Returns (2, [(100003, True), (100005, False)])"
    by (simp add: cpu_work_run_def randint_def math_isqrt_def r d)
  have "\<exists>t \<in> set [1, 2, 5 :: real]. \<not> t < 0 + 3" by simp
  from cpu_work_for_candidates [OF refl this, of "\<lambda>k. 2 * (k + 1)"] run
  show ?thesis by auto
qed

section \<open>Claim C4: generated names\<close>

text \<open>
  Claim C4. For every count \<open>N \<ge> 1\<close>, \<^verbatim>\<open>generate_names(N)\<close> returns exactly \<open>N\<close> names,
  the names are pairwise distinct as full strings, and the name at 0-based position \<open>i\<close>
  ends in the 1-based sequence suffix \<open>#(i+1)\<close>, whatever first and last names were drawn.
\<close>

theorem generate_names_unique:
  assumes "1 \<le> N"
  shows "int (length (generate_names rnd N)) = N
       \<and> distinct (generate_names rnd N)
       \<and> (\<forall>i < nat N. \<exists>sampled.
            generate_names rnd N ! i = sampled @ '' #'' @ str_int (int i + 1))"
proof (intro conjI allI impI)
  show "int (length (generate_names rnd N)) = N"
    using assms by (simp add: length_generate_names)
  show "distinct (generate_names rnd N)"
    by (rule distinct_generate_names)
  fix i assume "i < nat N"
  then have "generate_names rnd N ! i = make_name rnd (int i)"
    by (rule nth_generate_names)
  then show "\<exists>sampled. generate_names rnd N ! i = sampled @ '' #'' @ str_int (int i + 1)"
    by (auto simp: make_name_def)
qed

theorem generate_names_unique_witness:
  "(1::int) \<le> 3
   \<and> generate_names (\<lambda>k. 0) 3 = [''Aarav Sharma #1'', ''Aarav Sharma #2'', ''Aarav Sharma #3'']
   \<and> int (length (generate_names (\<lambda>k. 0) 3)) = 3
   \<and> distinct (generate_names (\<lambda>k. 0) 3)"
proof -
  have names: "generate_names (\<lambda>k. 0) 3 =
      [''Aarav Sharma #1'', ''Aarav Sharma #2'', ''Aarav Sharma #3'']"
    by code_simp
  show ?thesis
    using generate_names_unique [of 3 "\<lambda>k. 0"] by (simp add: names)
qed

section \<open>Claim C5: the log record\<close>



section \<open>Claim C6: a failing log append does not stop the worker\<close>



section \<open>Claim C7: terminate on interrupt, join before the completion report\<close>

text \<open>
  Claim C7. For every run of \<^verbatim>\<open>run_simulation\<close> over \<open>n\<close> workers: the completion report is
  printed exactly when the call returns, once, and by then every worker \<open>0, ..., n - 1\<close>
  has been joined, in order; \<^verbatim>\<open>terminate()\<close> is sent to every worker exactly when the
  monitoring loop was interrupted, which is also exactly when the interrupt line is
  printed, and never after a join has begun; and when the loop ends or is interrupted and
  every join returns, the call returns (and so reports completion).
\<close>

theorem run_simulation_joins_before_complete:
  fixes env number_of_users meeting_code passcode stay_seconds work_seconds stagger logfile
  defines "n \<equiv> length (generate_names (sim_random env) number_of_users)"
  defines "watched \<equiv> snd (snd (monitor n (sim_utcnow env) 1 (sim_polls env)))"
  defines "evs \<equiv> fst (run_simulation env number_of_users meeting_code passcode stay_seconds
                         work_seconds stagger logfile)"
  defines "r \<equiv> snd (run_simulation env number_of_users meeting_code passcode stay_seconds
                       work_seconds stagger logfile)"
  shows "joined_at_reports evs [] = (if r = Returns () then [[0..<n]] else [])
       \<and> terminations evs = (if watched = Raises KeyboardInterrupt then [0..<n] else [])
       \<and> terminations (dropWhile (\<lambda>e. \<not> is_Join e) evs) = []
       \<and> (watched = Raises KeyboardInterrupt \<longleftrightarrow> (\<exists>e \<in> set evs. is_PrintInterrupt e))
       \<and> ((\<forall>i<n. sim_join_returns env i) \<and>
            (watched = Returns () \<or> watched = Raises KeyboardInterrupt) \<longrightarrow> r = Returns ())"
proof -
  from run_simulation_shape [of env number_of_users meeting_code passcode stay_seconds
      work_seconds stagger logfile]
  obtain pre handler j tail where
    shape: "evs = pre @ handler @ map Join (take j [0..<n]) @ tail"
    and pq: "\<forall>e \<in> set pre. quiet e"
    and h: "handler =
             (if watched = Raises KeyboardInterrupt
              then PrintInterrupt ''KeyboardInterrupt received: terminating children'' #
                   map Terminate [0..<n]
              else [])"
    and t: "if r = Returns () then j = n \<and> (\<exists>l. tail = [PrintComplete l]) else tail = []"
    and live: "(\<forall>i<n. sim_join_returns env i) \<and>
              (watched = Returns () \<or> watched = Raises KeyboardInterrupt) \<longrightarrow> r = Returns ()"
    unfolding n_def watched_def evs_def r_def by blast
  have hq: "\<forall>e \<in> set (pre @ handler). quiet e \<or> is_PrintInterrupt e \<or> (\<exists>i. e = Terminate i)"
    using pq h by auto
  have rep: "joined_at_reports evs [] = joined_at_reports tail (take j [0..<n])"
    using reports_quiet [OF hq, of "map Join (take j [0..<n]) @ tail" "[]"]
    by (simp add: shape reports_joins)
  have c1: "joined_at_reports evs [] = (if r = Returns () then [[0..<n]] else [])"
    using t by (auto simp: rep)
  have tq: "terminations pre = []"
    by (rule terminations_none) (use pq in auto)
  have tj: "terminations (map Join (take j [0..<n]) @ tail) = []"
    by (rule terminations_none) (use t in \<open>auto split: if_splits\<close>)
  have th: "terminations handler = (if watched = Raises KeyboardInterrupt then [0..<n] else [])"
  proof -
    have "terminations (PrintInterrupt l # map Terminate [0..<n]) = [0..<n]" for l
      using terminations_append [of "[PrintInterrupt l]" "map Terminate [0..<n]"]
        terminations_none [of "[PrintInterrupt l]"]
      by (simp add: terminations_all)
    then show ?thesis by (simp add: h) (simp add: terminations_def)
  qed
  have c2: "terminations evs = (if watched = Raises KeyboardInterrupt then [0..<n] else [])"
    unfolding shape terminations_append tq th using tj
    by (simp add: terminations_append)
  have nj: "\<forall>e \<in> set (pre @ handler). \<not> is_Join e"
    using pq h by (auto elim!: quiet.elims)
  have "dropWhile (\<lambda>e. \<not> is_Join e) evs =
        dropWhile (\<lambda>e. \<not> is_Join e) (map Join (take j [0..<n]) @ tail)"
    using dropWhile_no_join [OF nj, of "map Join (take j [0..<n]) @ tail"] by (simp add: shape)
  then have c3: "terminations (dropWhile (\<lambda>e. \<not> is_Join e) evs) = []"
    using terminations_dropWhile [OF tj] by simp
  have np: "\<not> (\<exists>e \<in> set (pre @ map Join (take j [0..<n]) @ tail). is_PrintInterrupt e)"
    using pq t by (auto split: if_splits elim!: quiet.elims)
  have c4: "watched = Raises KeyboardInterrupt \<longleftrightarrow> (\<exists>e \<in> set evs. is_PrintInterrupt e)"
  proof (cases "watched = Raises KeyboardInterrupt")
    case True
    then have "PrintInterrupt ''KeyboardInterrupt received: terminating children'' \<in> set evs"
      by (simp add: shape h)
    then have "\<exists>e \<in> set evs. is_PrintInterrupt e"
      by (rule bexI [rotated]) simp
    with True show ?thesis by simp
  next
    case False
    then have "handler = []" by (simp add: h)
    with np False show ?thesis by (simp add: shape)
  qed
  show ?thesis using c1 c2 c3 c4 live by blast
qed

theorem run_simulation_joins_before_complete_witness:
  "snd (run_simulation example_sim_env 3 ''SIM-MEET-123'' [] 60 15 (1 / 2)
          (Some ''simulator.log'')) = Returns ()
   \<and> joined_at_reports
        (fst (run_simulation example_sim_env 3 ''SIM-MEET-123'' [] 60 15 (1 / 2)
                (Some ''simulator.log''))) [] = [[0, 1, 2]]
   \<and> terminations
        (fst (run_simulation example_sim_env 3 ''SIM-MEET-123'' [] 60 15 (1 / 2)
                (Some ''simulator.log''))) = [0, 1, 2]"
proof -
  have n: "length (generate_names (sim_random example_sim_env) 3) = 3"
    by (simp add: length_generate_names)
  have j: "\<forall>i<3. sim_join_returns example_sim_env i"
    by (simp add: example_sim_env_def)
  have u: "[0..<3] = [0, 1, 2]" by (simp add: upt_rec)
  have w: "snd (snd (monitor 3 (sim_utcnow example_sim_env) 1 (sim_polls example_sim_env))) =
      Raises KeyboardInterrupt"
    by (simp only: example_watched snd_conv)
  show ?thesis
    using run_simulation_joins_before_complete [of example_sim_env 3 "''SIM-MEET-123''" "[]"
        60 15 "1 / 2" "Some ''simulator.log''", unfolded n u] w j
    by simp
qed

section \<open>Claim C8: start delays\<close>



section \<open>Claim C9: a second start is rejected\<close>

text \<open>
  Claim C9. When the start action is requested while the liveness probe reports the
  tracked process id alive, the session state, and with it the tracked process id, is
  left as it was; apart from the probe's signal 0 the only thing done is the warning,
  which names the tracked process id: no directory is created, no file opened and no
  process started.
\<close>

theorem start_rejected_while_running:
  assumes "snd (is_pid_running env (proc_pid st)) = Returns True"
  shows "\<exists>p. proc_pid st = Some p
           \<and> start_simulation env cfg st =
               (st, [Kill p 0,
                     Warning (''Simulation already running (pid='' @ str_int p @ '')'')],
                Returns ())"
proof -
  from assms obtain p where p: "proc_pid st = Some p" "p \<noteq> 0" "kill_error env p 0 = None"
    by (cases "proc_pid st")
       (auto simp: is_pid_running_def os_kill_def split: option.splits if_splits)
  then show ?thesis
    by (simp add: start_simulation_def is_pid_running_def os_kill_def str_pid_def)
qed

theorem start_rejected_while_running_witness:
  "snd (is_pid_running example_ctl_env (proc_pid \<lparr>proc_pid = Some 4321\<rparr>)) = Returns True
   \<and> start_simulation example_ctl_env
         \<lparr>cfg_users = ''20'', cfg_meeting = ''SIM-MEET-123'', cfg_stay = ''120'',
          cfg_work = ''20.0'', cfg_stagger = ''0.5'', cfg_log_path = ''simulator.log''\<rparr>
         \<lparr>proc_pid = Some 4321\<rparr> =
       (\<lparr>proc_pid = Some 4321\<rparr>,
        [Kill 4321 0, Warning ''Simulation already running (pid=4321)''],
        Returns ())"
proof -
  have r: "snd (is_pid_running example_ctl_env (proc_pid \<lparr>proc_pid = Some 4321\<rparr>)) = Returns True"
    by (simp add: is_pid_running_def os_kill_def example_ctl_env_def)
  have s: "str_int 4321 = ''4321''"
    by (simp add: str_int_def str_nat.simps digit_char_def)
  from start_rejected_while_running [OF r,
      of "\<lparr>cfg_users = ''20'', cfg_meeting = ''SIM-MEET-123'', cfg_stay = ''120'',
          cfg_work = ''20.0'', cfg_stagger = ''0.5'', cfg_log_path = ''simulator.log''\<rparr>"] r
  show ?thesis
    by (simp add: s)
qed

section \<open>Claim C10: the liveness probe\<close>



end
